theory Spec2Isabelle
  imports Main
begin

section \<open>Data model\<close>

text \<open>
  The repository holds two implementations of one domain model: an Express/Mongoose
  backend (the second part of \<^verbatim>\<open>src/app.js\<close>) and a browser-only variant that keeps
  the same collections in localStorage (\<^verbatim>\<open>src/app-firebase.js\<close>).

  Dates are milliseconds since the epoch. Strings sent by a client are \<open>string option\<close>:
  \<open>None\<close> is an absent (undefined) field; request values are taken to be strings.
\<close>

type_synonym time = nat

datatype role = EMPLOYEE | ADMIN

record user =
  u_id :: string
  name :: string
  employeeId :: string
  role :: role

record db_user = user +
  u_createdAt :: time

record vote =
  v_id :: string
  sessionId :: string
  userId :: string
  userName :: "string option"
  vtype :: string
  timestamp :: time

record session =
  s_id :: string
  startTime :: time
  endTime :: "time option"
  isActive :: bool
  totalVotes :: int

record db_session = session +
  s_createdAt :: time

text \<open>
  The failures of the backend, named as the error taxonomy names them:
  status 400 with \<^verbatim>\<open>Missing required fields\<close> or \<^verbatim>\<open>Employee ID required\<close> is
  \<open>InvalidArgument\<close>, status 400 with \<^verbatim>\<open>User already voted in this session\<close> is
  \<open>DuplicateVote\<close>, 401 is \<open>Unauthorized\<close>, 403 is \<open>Forbidden\<close>, and the
  \<^verbatim>\<open>catch\<close> block of every route (status 500) is \<open>StorageFailure\<close>.
\<close>

datatype error = InvalidArgument | Unauthorized | Forbidden | DuplicateVote | StorageFailure

fun http_status :: "error \<Rightarrow> nat" where
  "http_status InvalidArgument = 400"
| "http_status DuplicateVote = 400"
| "http_status Unauthorized = 401"
| "http_status Forbidden = 403"
| "http_status StorageFailure = 500"

text \<open>JavaScript truthiness of an optional string: undefined and the empty string are falsy.\<close>

fun truthy :: "string option \<Rightarrow> bool" where
  "truthy None = False"
| "truthy (Some s) = (s \<noteq> [])"

section \<open>The record store\<close>

text \<open>
  A collection is the list of its documents in insertion order. \<^verbatim>\<open>findOne\<close> and the
  array method \<^verbatim>\<open>find\<close> return the first match (\<^const>\<open>List.find\<close>);
  \<^verbatim>\<open>findOneAndUpdate\<close> and \<^verbatim>\<open>findIndex\<close> followed by an assignment change the
  first match only.
\<close>

fun update_first :: "('a \<Rightarrow> bool) \<Rightarrow> ('a \<Rightarrow> 'a) \<Rightarrow> 'a list \<Rightarrow> 'a list" where
  "update_first p f [] = []"
| "update_first p f (x # xs) = (if p x then f x # xs else x # update_first p f xs)"

record server_state =
  users :: "db_user list"
  sessions :: "db_session list"
  votes :: "vote list"

text \<open>
  \<^verbatim>\<open>Model.create\<close> validates the document against its schema and the unique indexes
  of the collection; a violation throws, and the route's \<^verbatim>\<open>catch\<close> answers 500.
  \<^verbatim>\<open>userSchema\<close>: \<^verbatim>\<open>id\<close> and \<^verbatim>\<open>employeeId\<close> required and unique,
  \<^verbatim>\<open>role\<close> in the enum, \<^verbatim>\<open>createdAt\<close> defaulting to now.
\<close>

definition User_create :: "time \<Rightarrow> user \<Rightarrow> db_user list \<Rightarrow> error + db_user" where
  "User_create now u us =
     (if u_id u = [] \<or> employeeId u = [] then Inl StorageFailure
      else if u_id u \<in> u_id ` set us \<or> employeeId u \<in> employeeId ` set us
        then Inl StorageFailure
      else Inr \<lparr>u_id = u_id u, name = name u, employeeId = employeeId u, role = role u,
                u_createdAt = now\<rparr>)"

text \<open>
  \<^verbatim>\<open>voteSchema\<close>: \<^verbatim>\<open>id\<close> required and unique, \<^verbatim>\<open>sessionId\<close>,
  \<^verbatim>\<open>userId\<close> and \<^verbatim>\<open>type\<close> required, \<^verbatim>\<open>type\<close> in the enum
  \<^verbatim>\<open>['COFFEE', 'TEA']\<close>.
\<close>

definition Vote_create :: "vote \<Rightarrow> vote list \<Rightarrow> error + vote" where
  "Vote_create v vs =
     (if v_id v = [] \<or> sessionId v = [] \<or> userId v = [] \<or> vtype v = [] then Inl StorageFailure
      else if vtype v \<noteq> ''COFFEE'' \<and> vtype v \<noteq> ''TEA'' then Inl StorageFailure
      else if v_id v \<in> v_id ` set vs then Inl StorageFailure
      else Inr v)"

text \<open>
  \<^verbatim>\<open>sessionSchema\<close>: \<^verbatim>\<open>id\<close> required and unique, \<^verbatim>\<open>startTime\<close> required,
  \<^verbatim>\<open>createdAt\<close> defaulting to now. A field the schema does not declare
  (\<^verbatim>\<open>createdBy\<close>) is not stored.
\<close>

definition Session_create :: "time \<Rightarrow> session \<Rightarrow> db_session list \<Rightarrow> error + db_session" where
  "Session_create now s ss =
     (if s_id s = [] then Inl StorageFailure
      else if s_id s \<in> s_id ` set ss then Inl StorageFailure
      else Inr \<lparr>s_id = s_id s, startTime = startTime s, endTime = endTime s,
                isActive = isActive s, totalVotes = totalVotes s, s_createdAt = now\<rparr>)"

text \<open>\<^verbatim>\<open>Session.updateMany({ isActive: true }, { isActive: false })\<close>\<close>

definition Session_updateMany_inactive :: "db_session list \<Rightarrow> db_session list" where
  "Session_updateMany_inactive ss =
     map (\<lambda>s. if isActive s then s\<lparr>isActive := False\<rparr> else s) ss"

section \<open>The backend routes\<close>

text \<open>
  Every route takes the state of the store and returns its answer with the new state.
  \<open>uuid\<close> is the value \<^verbatim>\<open>crypto.randomUUID()\<close> returns in the call and \<open>now\<close> the
  value of \<^verbatim>\<open>new Date()\<close>.
\<close>

text \<open>
  \<^verbatim>\<open>User.findOne({ id: req.query.userId })\<close>: a filter on an undefined
  \<^verbatim>\<open>id\<close> matches no user, since every stored user has one.
\<close>

definition User_findOne_id :: "string option \<Rightarrow> db_user list \<Rightarrow> db_user option" where
  "User_findOne_id q us = (case q of None \<Rightarrow> None | Some i \<Rightarrow> find (\<lambda>u. u_id u = i) us)"

text \<open>\<^verbatim>\<open>POST /api/init\<close>\<close>

definition post_init :: "time \<Rightarrow> server_state \<Rightarrow> (error + unit) \<times> server_state" where
  "post_init now st =
     (case find (\<lambda>u. employeeId u = ''ADM001'') (users st) of
        Some _ \<Rightarrow> (Inr (), st)
      | None \<Rightarrow>
          (case User_create now
                  \<lparr>u_id = ''admin-1'', name = ''Event Manager'', employeeId = ''ADM001'',
                   role = ADMIN\<rparr> (users st) of
             Inl e \<Rightarrow> (Inl e, st)
           | Inr a \<Rightarrow> (Inr (), st\<lparr>users := users st @ [a]\<rparr>)))"

text \<open>\<^verbatim>\<open>POST /api/auth/login\<close> with body \<^verbatim>\<open>{employeeId, name, role}\<close>\<close>

definition post_auth_login ::
  "string \<Rightarrow> time \<Rightarrow> string option \<Rightarrow> string option \<Rightarrow> string option \<Rightarrow> server_state
     \<Rightarrow> (error + db_user) \<times> server_state" where
  "post_auth_login uuid now eid nm rl st =
     (if \<not> truthy eid then (Inl InvalidArgument, st)
      else if rl = Some ''ADMIN'' then
        (case find (\<lambda>u. employeeId u = the eid \<and> role u = ADMIN) (users st) of
           None \<Rightarrow> (Inl Unauthorized, st)
         | Some admin \<Rightarrow> (Inr admin, st))
      else
        (case find (\<lambda>u. employeeId u = the eid \<and> role u = EMPLOYEE) (users st) of
           Some u \<Rightarrow> (Inr u, st)
         | None \<Rightarrow>
             if truthy nm then
               (case User_create now
                       \<lparr>u_id = uuid, name = the nm, employeeId = the eid, role = EMPLOYEE\<rparr>
                       (users st) of
                  Inl e \<Rightarrow> (Inl e, st)
                | Inr u \<Rightarrow> (Inr u, st\<lparr>users := users st @ [u]\<rparr>))
             else (Inl Unauthorized, st)))"

text \<open>
  \<^verbatim>\<open>GET /api/sessions/active\<close> with the optional query parameter \<^verbatim>\<open>userId\<close>;
  the answer \<open>None\<close> is the JSON \<^verbatim>\<open>null\<close>.
\<close>

definition get_sessions_active :: "string option \<Rightarrow> server_state \<Rightarrow> db_session option" where
  "get_sessions_active q st =
     (if truthy q \<and>
         (case User_findOne_id q (users st) of
            None \<Rightarrow> True
          | Some u \<Rightarrow> role u \<noteq> ADMIN)
      then None
      else find isActive (sessions st))"

text \<open>
  \<^verbatim>\<open>POST /api/sessions/start\<close> with the query parameter \<^verbatim>\<open>userId\<close>. The
  sessions that were active are deactivated before the new one is created, so they stay
  deactivated when the creation fails.
\<close>

definition post_sessions_start ::
  "string \<Rightarrow> time \<Rightarrow> string option \<Rightarrow> server_state \<Rightarrow> (error + db_session) \<times> server_state" where
  "post_sessions_start uuid now q st =
     (case User_findOne_id q (users st) of
        None \<Rightarrow> (Inl Forbidden, st)
      | Some u \<Rightarrow>
          if role u \<noteq> ADMIN then (Inl Forbidden, st)
          else
            let st1 = st\<lparr>sessions := Session_updateMany_inactive (sessions st)\<rparr>
            in (case Session_create now
                       \<lparr>s_id = uuid, startTime = now, endTime = None, isActive = True,
                        totalVotes = 0\<rparr> (sessions st1) of
                  Inl e \<Rightarrow> (Inl e, st1)
                | Inr s \<Rightarrow> (Inr s, st1\<lparr>sessions := sessions st1 @ [s]\<rparr>)))"

text \<open>
  \<^verbatim>\<open>POST /api/sessions/:id/end\<close>. \<^verbatim>\<open>findOneAndUpdate\<close> with \<^verbatim>\<open>{new: true}\<close>
  returns the updated document, or \<^verbatim>\<open>null\<close> when none matches.
\<close>

definition post_sessions_end ::
  "time \<Rightarrow> string \<Rightarrow> server_state \<Rightarrow> (error + db_session option) \<times> server_state" where
  "post_sessions_end now i st =
     (let upd = (\<lambda>s. s\<lparr>isActive := False, endTime := Some now\<rparr>)
      in (Inr (map_option upd (find (\<lambda>s. s_id s = i) (sessions st))),
          st\<lparr>sessions := update_first (\<lambda>s. s_id s = i) upd (sessions st)\<rparr>))"

text \<open>\<^verbatim>\<open>POST /api/votes\<close> with body \<^verbatim>\<open>{sessionId, userId, userName, type}\<close>\<close>

definition post_votes ::
  "string \<Rightarrow> time \<Rightarrow> string option \<Rightarrow> string option \<Rightarrow> string option \<Rightarrow> string option
     \<Rightarrow> server_state \<Rightarrow> (error + vote) \<times> server_state" where
  "post_votes uuid now sid uid unm ty st =
     (if \<not> truthy sid \<or> \<not> truthy uid \<or> \<not> truthy ty then (Inl InvalidArgument, st)
      else
        (case find (\<lambda>v. sessionId v = the sid \<and> userId v = the uid) (votes st) of
           Some _ \<Rightarrow> (Inl DuplicateVote, st)
         | None \<Rightarrow>
             (case Vote_create
                     \<lparr>v_id = uuid, sessionId = the sid, userId = the uid, userName = unm,
                      vtype = the ty, timestamp = now\<rparr> (votes st) of
                Inl e \<Rightarrow> (Inl e, st)
              | Inr v \<Rightarrow>
                  (Inr v,
                   st\<lparr>votes := votes st @ [v],
                      sessions := update_first (\<lambda>s. s_id s = the sid)
                                    (\<lambda>s. s\<lparr>totalVotes := totalVotes s + 1\<rparr>) (sessions st)\<rparr>))))"

section \<open>The localStorage variant\<close>

text \<open>
  \<^verbatim>\<open>src/app-firebase.js\<close> keeps the three collections under the keys
  \<^verbatim>\<open>STORAGE_KEYS.USERS\<close>, \<^verbatim>\<open>SESSIONS\<close> and \<^verbatim>\<open>VOTES\<close> (a key never written reads
  as the empty array) and the logged-in user under \<^verbatim>\<open>CURRENT_USER\<close> and in
  \<^verbatim>\<open>app.user\<close>. Only the effect of a function on this state is modelled, not what it
  draws on the page. Within one call the clock does not advance: every
  \<^verbatim>\<open>new Date()\<close> of the call is \<open>now\<close>.
\<close>

record local_state =
  USERS :: "user list"
  SESSIONS :: "session list"
  VOTES :: "vote list"
  CURRENT_USER :: "user option"
  app_user :: "user option"
  loginMode :: string

definition SESSION_DURATION_MS :: int where
  "SESSION_DURATION_MS = 10 * 60 * 1000"

definition ADMIN_USER :: user where
  "ADMIN_USER = \<lparr>u_id = ''admin-1'', name = ''Event Manager'', employeeId = ''ADM001'',
                  role = ADMIN\<rparr>"

definition getActiveSession :: "local_state \<Rightarrow> session option" where
  "getActiveSession st = find isActive (SESSIONS st)"

definition active_count :: "local_state \<Rightarrow> nat" where
  "active_count st = length (filter isActive (SESSIONS st))"

definition end_active :: "time \<Rightarrow> local_state \<Rightarrow> local_state" where
  \<comment> \<open>the body of \<^verbatim>\<open>endSession\<close> before it refreshes the page\<close>
  "end_active now st =
     (case find isActive (SESSIONS st) of
        None \<Rightarrow> st
      | Some _ \<Rightarrow>
          st\<lparr>SESSIONS := update_first isActive (\<lambda>s. s\<lparr>isActive := False, endTime := Some now\<rparr>)
                             (SESSIONS st)\<rparr>)"

text \<open>
  \<^verbatim>\<open>endSession\<close> ends the first active session and calls \<^verbatim>\<open>updateAdminUI\<close>, which
  calls \<^verbatim>\<open>endSession\<close> again when the session it then finds active has run for
  \<^verbatim>\<open>SESSION_DURATION_MS\<close>.
\<close>

function endSession :: "time \<Rightarrow> local_state \<Rightarrow> local_state"
  and updateAdminUI :: "time \<Rightarrow> local_state \<Rightarrow> local_state" where
  "endSession now st = updateAdminUI now (end_active now st)"
| "updateAdminUI now st =
     (case getActiveSession st of
        None \<Rightarrow> st
      | Some session \<Rightarrow>
          if (int (startTime session) + SESSION_DURATION_MS) - int now \<le> 0
          then endSession now st
          else st)"
  by pat_completeness auto

definition refresh_measure :: "time \<times> local_state + time \<times> local_state \<Rightarrow> nat" where
  \<comment> \<open>\<open>Inl\<close> is a call of \<^verbatim>\<open>endSession\<close>, \<open>Inr\<close> a call of \<^verbatim>\<open>updateAdminUI\<close>\<close>
  "refresh_measure c =
     (case c of
        Inl (now, st) \<Rightarrow> (if getActiveSession st = None then 1 else 2 * active_count st - 1)
      | Inr (now, st) \<Rightarrow> 2 * active_count st)"

lemma length_filter_update_first:
  "find isActive xs = Some s \<Longrightarrow>
   length (filter isActive (update_first isActive (\<lambda>s. s\<lparr>isActive := False, endTime := e\<rparr>) xs))
     < length (filter isActive xs)"
  by (induction xs) (auto split: if_splits)

lemma active_count_end_active:
  "active_count (end_active now st) \<le> active_count st"
  "getActiveSession st \<noteq> None \<Longrightarrow> active_count (end_active now st) < active_count st"
  by (auto simp: active_count_def end_active_def getActiveSession_def
           dest: length_filter_update_first less_imp_le split: option.splits)

lemma find_Some_mem:
  "find p xs = Some x \<Longrightarrow> x \<in> set xs \<and> p x"
  by (induction xs) (auto split: if_splits)

lemma active_count_pos:
  "getActiveSession st = Some s \<Longrightarrow> 0 < active_count st"
  by (auto simp: getActiveSession_def active_count_def filter_empty_conv dest: find_Some_mem)

text \<open>
  The calls end: \<^verbatim>\<open>updateAdminUI\<close> calls \<^verbatim>\<open>endSession\<close> only when a session is
  active, and \<^verbatim>\<open>endSession\<close> then deactivates one before it calls back.
\<close>

termination endSession
proof (relation "measure refresh_measure")
  show "wf (measure refresh_measure)"
    by simp
next
  fix now :: time and st :: local_state
  show "(Inr (now, end_active now st), Inl (now, st)) \<in> measure refresh_measure"
  proof (cases "getActiveSession st")
    case None
    then have "end_active now st = st"
      by (simp add: end_active_def getActiveSession_def)
    moreover from None have "active_count st = 0"
      by (auto simp: getActiveSession_def active_count_def find_None_iff filter_empty_conv)
    ultimately show ?thesis using None by (simp add: refresh_measure_def)
  next
    case (Some s)
    then have "active_count (end_active now st) < active_count st"
      by (simp add: active_count_end_active)
    then show ?thesis using Some by (simp add: refresh_measure_def)
  qed
next
  fix now :: time and st :: local_state and x2 :: session
  assume active: "getActiveSession st = Some x2"
  then have "0 < active_count st" by (rule active_count_pos)
  then show "(Inl (now, st), Inr (now, st)) \<in> measure refresh_measure"
    using active by (simp add: refresh_measure_def)
qed

declare endSession.simps [simp del] updateAdminUI.simps [simp del]

text \<open>
  \<^verbatim>\<open>navigate\<close> opens the dashboard of the logged-in user: the admin dashboard refreshes
  through \<^verbatim>\<open>updateAdminUI\<close>, the employee dashboard only reads.
\<close>

definition navigate :: "time \<Rightarrow> local_state \<Rightarrow> local_state" where
  "navigate now st =
     (case app_user st of
        None \<Rightarrow> st
      | Some u \<Rightarrow> if role u = ADMIN then updateAdminUI now st else st)"

text \<open>
  \<^verbatim>\<open>handleLogin\<close> reads the id and the name from the form. Its answer is \<open>None\<close>
  when it returns at once on an empty id, \<open>Some (Inl Unauthorized)\<close> when it shows the
  login error, and \<open>Some (Inr u)\<close> when \<open>u\<close> is logged in.
\<close>

definition handleLogin ::
  "string \<Rightarrow> time \<Rightarrow> string \<Rightarrow> string \<Rightarrow> local_state
     \<Rightarrow> (error + user) option \<times> local_state" where
  "handleLogin uuid now i nm st =
     (if i = [] then (None, st)
      else if loginMode st = ''ADMIN'' then
        (if i = ''oe10''
         then (Some (Inr ADMIN_USER),
               navigate now (st\<lparr>app_user := Some ADMIN_USER, CURRENT_USER := Some ADMIN_USER\<rparr>))
         else (Some (Inl Unauthorized), st))
      else
        (case find (\<lambda>u. employeeId u = i) (USERS st) of
           Some u \<Rightarrow>
             (Some (Inr u), navigate now (st\<lparr>app_user := Some u, CURRENT_USER := Some u\<rparr>))
         | None \<Rightarrow>
             if nm \<noteq> [] then
               let u = \<lparr>u_id = uuid, name = nm, employeeId = i, role = EMPLOYEE\<rparr>
               in (Some (Inr u),
                   navigate now (st\<lparr>USERS := USERS st @ [u], app_user := Some u,
                                    CURRENT_USER := Some u\<rparr>))
             else (Some (Inl Unauthorized), st)))"

definition setLoginMode :: "string \<Rightarrow> local_state \<Rightarrow> local_state" where
  "setLoginMode mode st = st\<lparr>loginMode := mode\<rparr>"

definition logout :: "local_state \<Rightarrow> local_state" where
  "logout st = st\<lparr>app_user := None, CURRENT_USER := None\<rparr>"

text \<open>
  \<^verbatim>\<open>castVote(type)\<close> votes in the active session as \<^verbatim>\<open>app.user\<close>. With nobody
  logged in, reading \<^verbatim>\<open>app.user.id\<close> throws before anything is written.
\<close>

definition castVote :: "string \<Rightarrow> time \<Rightarrow> string \<Rightarrow> local_state \<Rightarrow> local_state" where
  "castVote uuid now ty st =
     (case getActiveSession st of
        None \<Rightarrow> st
      | Some session \<Rightarrow>
          (case app_user st of
             None \<Rightarrow> st
           | Some u \<Rightarrow>
               let newVote = \<lparr>v_id = uuid, sessionId = s_id session, userId = u_id u,
                              userName = Some (name u), vtype = ty, timestamp = now\<rparr>
               in st\<lparr>VOTES := VOTES st @ [newVote],
                     SESSIONS := update_first (\<lambda>s. s_id s = s_id session)
                                   (\<lambda>s. s\<lparr>totalVotes := totalVotes s + 1\<rparr>) (SESSIONS st)\<rparr>))"

text \<open>
  \<^verbatim>\<open>startSession\<close> deactivates every stored session and puts the new one in front
  (\<^verbatim>\<open>unshift\<close>); it takes no argument and reads no user.
\<close>

definition startSession :: "string \<Rightarrow> time \<Rightarrow> local_state \<Rightarrow> local_state" where
  "startSession uuid now st =
     (let others = map (\<lambda>s. s\<lparr>isActive := False\<rparr>) (SESSIONS st);
          newSession = \<lparr>s_id = uuid, startTime = now, endTime = None, isActive = True,
                         totalVotes = 0\<rparr>
      in updateAdminUI now (st\<lparr>SESSIONS := newSession # others\<rparr>))"

text \<open>\<open>confirmed\<close> is the answer to the \<^verbatim>\<open>confirm\<close> dialog.\<close>

definition deleteSession :: "bool \<Rightarrow> time \<Rightarrow> string \<Rightarrow> local_state \<Rightarrow> local_state" where
  "deleteSession confirmed now i st =
     (if \<not> confirmed then st
      else updateAdminUI now
             (st\<lparr>SESSIONS := filter (\<lambda>s. s_id s \<noteq> i) (SESSIONS st),
                 VOTES := filter (\<lambda>v. sessionId v \<noteq> i) (VOTES st)\<rparr>))"

section \<open>Sequences of operations\<close>

datatype srv_op =
    PostInit time
  | PostLogin string time "string option" "string option" "string option"
  | PostStart string time "string option"
  | PostEnd time string
  | PostVote string time "string option" "string option" "string option" "string option"

fun srv_step :: "srv_op \<Rightarrow> server_state \<Rightarrow> server_state" where
  "srv_step (PostInit now) st = snd (post_init now st)"
| "srv_step (PostLogin uuid now eid nm rl) st = snd (post_auth_login uuid now eid nm rl st)"
| "srv_step (PostStart uuid now q) st = snd (post_sessions_start uuid now q st)"
| "srv_step (PostEnd now i) st = snd (post_sessions_end now i st)"
| "srv_step (PostVote uuid now sid uid unm ty) st = snd (post_votes uuid now sid uid unm ty st)"

fun srv_run :: "srv_op list \<Rightarrow> server_state \<Rightarrow> server_state" where
  "srv_run [] st = st"
| "srv_run (c # cs) st = srv_run cs (srv_step c st)"

datatype local_op =
    HandleLogin string time string string
  | SetLoginMode string
  | Logout
  | CastVote string time string
  | StartSession string time
  | EndSession time
  | DeleteSession bool time string
  | UpdateAdminUI time

fun local_step :: "local_op \<Rightarrow> local_state \<Rightarrow> local_state" where
  "local_step (HandleLogin uuid now i nm) st = snd (handleLogin uuid now i nm st)"
| "local_step (SetLoginMode mode) st = setLoginMode mode st"
| "local_step Logout st = logout st"
| "local_step (CastVote uuid now ty) st = castVote uuid now ty st"
| "local_step (StartSession uuid now) st = startSession uuid now st"
| "local_step (EndSession now) st = endSession now st"
| "local_step (DeleteSession confirmed now i) st = deleteSession confirmed now i st"
| "local_step (UpdateAdminUI now) st = updateAdminUI now st"

fun local_run :: "local_op list \<Rightarrow> local_state \<Rightarrow> local_state" where
  "local_run [] st = st"
| "local_run (c # cs) st = local_run cs (local_step c st)"

text \<open>
  \<^verbatim>\<open>crypto.randomUUID()\<close> is taken to give a new session an id that is not in use: no
  stored session has it and no stored vote refers to it. (The backend's unique index
  refuses a session id that is in use, so there only the votes are looked at.)
\<close>

fun srv_fresh :: "srv_op \<Rightarrow> server_state \<Rightarrow> bool" where
  "srv_fresh (PostStart uuid now q) st = (uuid \<notin> sessionId ` set (votes st))"
| "srv_fresh _ st = True"

fun srv_fresh_run :: "srv_op list \<Rightarrow> server_state \<Rightarrow> bool" where
  "srv_fresh_run [] st = True"
| "srv_fresh_run (c # cs) st = (srv_fresh c st \<and> srv_fresh_run cs (srv_step c st))"

fun local_fresh :: "local_op \<Rightarrow> local_state \<Rightarrow> bool" where
  "local_fresh (StartSession uuid now) st =
     (uuid \<notin> s_id ` set (SESSIONS st) \<and> uuid \<notin> sessionId ` set (VOTES st))"
| "local_fresh _ st = True"

fun local_fresh_run :: "local_op list \<Rightarrow> local_state \<Rightarrow> bool" where
  "local_fresh_run [] st = True"
| "local_fresh_run (c # cs) st = (local_fresh c st \<and> local_fresh_run cs (local_step c st))"

section \<open>Invariants\<close>

definition at_most_one_active :: "('a session_scheme) list \<Rightarrow> bool" where
  "at_most_one_active ss = (length (filter isActive ss) \<le> 1)"

definition votes_of :: "string \<Rightarrow> vote list \<Rightarrow> vote list" where
  "votes_of i vs = filter (\<lambda>v. sessionId v = i) vs"

definition counts_match :: "('a session_scheme) list \<Rightarrow> vote list \<Rightarrow> bool" where
  "counts_match ss vs = (\<forall>s \<in> set ss. totalVotes s = int (length (votes_of (s_id s) vs)))"

definition srv_inv :: "server_state \<Rightarrow> bool" where
  "srv_inv st = (distinct (map s_id (sessions st)) \<and> counts_match (sessions st) (votes st))"

definition local_inv :: "local_state \<Rightarrow> bool" where
  "local_inv st = (distinct (map s_id (SESSIONS st)) \<and> counts_match (SESSIONS st) (VOTES st))"

section \<open>States used as examples\<close>

definition empty_store :: server_state where
  "empty_store = \<lparr>users = [], sessions = [], votes = []\<rparr>"

definition store_example :: server_state where
  \<comment> \<open>an admin, two employees, one active session in which \<^verbatim>\<open>u1\<close> has voted\<close>
  "store_example =
     \<lparr>users =
        [\<lparr>u_id = ''admin-1'', name = ''Event Manager'', employeeId = ''ADM001'', role = ADMIN,
          u_createdAt = 1\<rparr>,
         \<lparr>u_id = ''u1'', name = ''Asha'', employeeId = ''EMP1'', role = EMPLOYEE,
          u_createdAt = 2\<rparr>,
         \<lparr>u_id = ''u2'', name = ''Ravi'', employeeId = ''EMP2'', role = EMPLOYEE,
          u_createdAt = 3\<rparr>],
      sessions =
        [\<lparr>s_id = ''s1'', startTime = 10, endTime = None, isActive = True, totalVotes = 1,
          s_createdAt = 10\<rparr>],
      votes =
        [\<lparr>v_id = ''v1'', sessionId = ''s1'', userId = ''u1'', userName = Some ''Asha'',
          vtype = ''COFFEE'', timestamp = 20\<rparr>]\<rparr>"

definition local_example :: local_state where
  \<comment> \<open>the employee \<^verbatim>\<open>u1\<close> is logged in and has voted in the active session\<close>
  "local_example =
     \<lparr>USERS =
        [ADMIN_USER,
         \<lparr>u_id = ''u1'', name = ''Asha'', employeeId = ''EMP1'', role = EMPLOYEE\<rparr>],
      SESSIONS =
        [\<lparr>s_id = ''s1'', startTime = 10, endTime = None, isActive = True, totalVotes = 1\<rparr>],
      VOTES =
        [\<lparr>v_id = ''v1'', sessionId = ''s1'', userId = ''u1'', userName = Some ''Asha'',
          vtype = ''COFFEE'', timestamp = 20\<rparr>],
      CURRENT_USER = Some \<lparr>u_id = ''u1'', name = ''Asha'', employeeId = ''EMP1'', role = EMPLOYEE\<rparr>,
      app_user = Some \<lparr>u_id = ''u1'', name = ''Asha'', employeeId = ''EMP1'', role = EMPLOYEE\<rparr>,
      loginMode = ''EMPLOYEE''\<rparr>"

definition requests_example :: "srv_op list" where
  \<comment> \<open>the admin starts \<^verbatim>\<open>s1\<close>; \<^verbatim>\<open>u1\<close> registers, votes, and votes again; \<^verbatim>\<open>s1\<close> is ended\<close>
  "requests_example =
     [PostInit 1, PostLogin ''u1'' 2 (Some ''EMP1'') (Some ''Asha'') (Some ''EMPLOYEE''),
      PostStart ''s1'' 10 (Some ''admin-1''),
      PostVote ''v1'' 20 (Some ''s1'') (Some ''u1'') (Some ''Asha'') (Some ''COFFEE''),
      PostVote ''v2'' 21 (Some ''s1'') (Some ''u1'') (Some ''Asha'') (Some ''TEA''),
      PostEnd 30 ''s1'']"

definition actions_example :: "local_op list" where
  \<comment> \<open>the same story in the browser, and the deletion of a session that does not exist\<close>
  "actions_example =
     [SetLoginMode ''ADMIN'', HandleLogin ''x'' 5 ''oe10'' [], StartSession ''s1'' 10, Logout,
      SetLoginMode ''EMPLOYEE'', HandleLogin ''u1'' 12 ''EMP1'' ''Asha'',
      CastVote ''v1'' 20 ''COFFEE'', CastVote ''v2'' 21 ''TEA'', EndSession 30,
      DeleteSession True 40 ''s0'']"

definition initial_local :: local_state where
  \<comment> \<open>the state \<^verbatim>\<open>app.init\<close> leaves on a browser with an empty localStorage\<close>
  "initial_local = \<lparr>USERS = [ADMIN_USER], SESSIONS = [], VOTES = [], CURRENT_USER = None,
                     app_user = None, loginMode = ''EMPLOYEE''\<rparr>"

section \<open>Lists and first matches\<close>

lemma update_first_no_match:
  "\<forall>x \<in> set xs. \<not> p x \<Longrightarrow> update_first p f xs = xs"
  by (induction xs) auto

lemma find_no_match:
  "\<forall>x \<in> set xs. \<not> p x \<Longrightarrow> find p xs = None"
  by (induction xs) auto

lemma find_None_iff_all: "find p xs = None \<longleftrightarrow> (\<forall>x \<in> set xs. \<not> p x)"
  by (induction xs) auto

lemma find_new_last:
  "\<forall>x \<in> set xs. \<not> p x \<Longrightarrow> p u \<Longrightarrow> find p ((xs @ [u]) @ ys) = Some u"
  by (induction xs) auto

lemma find_update_first:
  "(\<And>x. p (f x) = p x) \<Longrightarrow> find p (update_first p f xs) = map_option f (find p xs)"
  by (induction xs) auto

lemma update_first_twice:
  "(\<And>x. p (f x) = p x) \<Longrightarrow> (\<And>x. g (f x) = g x) \<Longrightarrow>
   update_first p g (update_first p f xs) = update_first p g xs"
  by (induction xs) auto

lemma map_s_id_update_first:
  "(\<And>x. s_id (f x) = s_id x) \<Longrightarrow> map s_id (update_first p f xs) = map s_id xs"
  by (induction xs) auto

lemma length_filter_filter_le:
  "length (filter P (filter Q xs)) \<le> length (filter P xs)"
  by (induction xs) auto

subsection \<open>Active sessions in a list\<close>

lemma length_active_update_first_keep:
  "(\<And>x. isActive (f x) = isActive x) \<Longrightarrow>
   length (filter isActive (update_first p f xs)) = length (filter isActive xs)"
  by (induction xs) auto

lemma length_active_update_first_off:
  "(\<And>x. \<not> isActive (f x)) \<Longrightarrow>
   length (filter isActive (update_first p f xs)) \<le> length (filter isActive xs)"
  by (induction xs) auto

lemma filter_active_deactivated:
  "filter isActive (Session_updateMany_inactive xs) = []"
  unfolding Session_updateMany_inactive_def by (induction xs) auto

lemma filter_active_all_off:
  "filter isActive (map (\<lambda>s. s\<lparr>isActive := False\<rparr>) xs) = []"
  by (induction xs) auto

lemma filter_active_end_first:
  "length (filter isActive xs) \<le> 1 \<Longrightarrow>
   filter isActive (update_first isActive (\<lambda>s. s\<lparr>isActive := False, endTime := e\<rparr>) xs) = []"
  by (induction xs) (auto split: if_splits)

lemma map_s_id_deactivate:
  "map s_id (Session_updateMany_inactive xs) = map s_id xs"
  unfolding Session_updateMany_inactive_def by (induction xs) auto

lemma s_id_set_deactivate:
  "s_id ` set (Session_updateMany_inactive xs) = s_id ` set xs"
  using map_s_id_deactivate [of xs] by (metis set_map)

subsection \<open>Counters against votes\<close>

lemma counts_match_Cons:
  "counts_match (s # ss) vs \<longleftrightarrow>
     totalVotes s = int (length (votes_of (s_id s) vs)) \<and> counts_match ss vs"
  by (simp add: counts_match_def)

lemma counts_match_Nil: "counts_match [] vs"
  by (simp add: counts_match_def)

lemma counts_match_append:
  "counts_match (ss @ ts) vs \<longleftrightarrow> counts_match ss vs \<and> counts_match ts vs"
  by (auto simp: counts_match_def)

lemma counts_match_update_first_frame:
  assumes "\<And>x. s_id (f x) = s_id x" and "\<And>x. totalVotes (f x) = totalVotes x"
  shows "counts_match (update_first p f xs) vs = counts_match xs vs"
  by (induction xs) (simp_all add: counts_match_Cons counts_match_Nil assms)

lemma counts_match_map_frame:
  assumes "\<And>x. s_id (f x) = s_id x" and "\<And>x. totalVotes (f x) = totalVotes x"
  shows "counts_match (map f xs) vs = counts_match xs vs"
  by (induction xs) (simp_all add: counts_match_Cons counts_match_Nil assms)

lemma counts_match_deactivate:
  "counts_match (Session_updateMany_inactive xs) vs = counts_match xs vs"
  unfolding Session_updateMany_inactive_def by (rule counts_match_map_frame) auto

lemma counts_match_other_vote:
  "\<forall>s \<in> set ss. s_id s \<noteq> sessionId v \<Longrightarrow> counts_match ss (vs @ [v]) = counts_match ss vs"
  by (auto simp: counts_match_def votes_of_def)

text \<open>
  The step that matters: appending a vote and incrementing the first session with the
  vote's session id keeps the counters right, because the ids are distinct.
\<close>

lemma counts_match_vote:
  assumes "distinct (map s_id ss)" and "counts_match ss vs"
  shows "counts_match
           (update_first (\<lambda>s. s_id s = sessionId v) (\<lambda>s. s\<lparr>totalVotes := totalVotes s + 1\<rparr>) ss)
           (vs @ [v])"
  using assms
proof (induction ss)
  case Nil
  then show ?case by (simp add: counts_match_Nil)
next
  case (Cons x xs)
  show ?case
  proof (cases "s_id x = sessionId v")
    case True
    with Cons.prems have "\<forall>s \<in> set xs. s_id s \<noteq> sessionId v"
      by (auto simp: image_iff)
    then have "counts_match xs (vs @ [v])"
      using Cons.prems by (simp add: counts_match_other_vote counts_match_Cons)
    moreover have "totalVotes x + 1 = int (length (votes_of (s_id x) (vs @ [v])))"
      using Cons.prems True by (simp add: counts_match_Cons votes_of_def)
    ultimately show ?thesis using True by (simp add: counts_match_Cons)
  next
    case False
    then have "totalVotes x = int (length (votes_of (s_id x) (vs @ [v])))"
      using Cons.prems by (simp add: counts_match_Cons votes_of_def)
    moreover have "counts_match (update_first (\<lambda>s. s_id s = sessionId v)
                      (\<lambda>s. s\<lparr>totalVotes := totalVotes s + 1\<rparr>) xs) (vs @ [v])"
      using Cons by (simp add: counts_match_Cons)
    ultimately show ?thesis using False by (simp add: counts_match_Cons)
  qed
qed

lemma counts_match_new:
  "totalVotes s = 0 \<Longrightarrow> s_id s \<notin> sessionId ` set vs \<Longrightarrow> counts_match [s] vs"
  by (force simp: counts_match_def votes_of_def filter_empty_conv)

lemma counts_match_delete:
  assumes "counts_match ss vs"
  shows "counts_match (filter (\<lambda>s. s_id s \<noteq> i) ss) (filter (\<lambda>v. sessionId v \<noteq> i) vs)"
proof -
  have "\<And>j. j \<noteq> i \<Longrightarrow> votes_of j (filter (\<lambda>v. sessionId v \<noteq> i) vs) = votes_of j vs"
    by (auto simp: votes_of_def intro: filter_cong)
  with assms show ?thesis
    by (simp add: counts_match_def)
qed

section \<open>What each backend route leaves alone\<close>

lemma post_init_sessions: "sessions (snd (post_init now st)) = sessions st"
  and post_init_votes: "votes (snd (post_init now st)) = votes st"
  by (auto simp: post_init_def split: option.splits sum.splits)

lemma post_auth_login_sessions:
  "sessions (snd (post_auth_login uuid now eid nm rl st)) = sessions st"
  and post_auth_login_votes:
  "votes (snd (post_auth_login uuid now eid nm rl st)) = votes st"
  by (auto simp: post_auth_login_def split: option.splits sum.splits)

lemma post_votes_active:
  "length (filter isActive (sessions (snd (post_votes uuid now sid uid unm ty st))))
     = length (filter isActive (sessions st))"
  by (auto simp: post_votes_def length_active_update_first_keep split: option.splits sum.splits)

lemma post_sessions_end_active:
  "length (filter isActive (sessions (snd (post_sessions_end now i st))))
     \<le> length (filter isActive (sessions st))"
  by (simp add: post_sessions_end_def Let_def length_active_update_first_off)

lemma post_sessions_start_active:
  "length (filter isActive (sessions (snd (post_sessions_start uuid now q st)))) \<le> 1
   \<or> sessions (snd (post_sessions_start uuid now q st)) = sessions st"
  by (auto simp: post_sessions_start_def Session_create_def filter_active_deactivated Let_def
           split: option.splits sum.splits if_splits)

lemma post_sessions_start_Inr:
  "post_sessions_start uuid now q st = (Inr s, st') \<Longrightarrow> filter isActive (sessions st') = [s]"
  by (auto simp: post_sessions_start_def Session_create_def filter_active_deactivated Let_def
           split: option.splits sum.splits if_splits)

text \<open>A vote request either leaves the store as it was or stores one vote for its session.\<close>

lemma post_votes_result:
  "snd (post_votes uuid now sid uid unm ty st) = st \<or>
   snd (post_votes uuid now sid uid unm ty st) =
     st\<lparr>votes := votes st @
           [\<lparr>v_id = uuid, sessionId = the sid, userId = the uid, userName = unm,
             vtype = the ty, timestamp = now\<rparr>],
        sessions := update_first (\<lambda>s. s_id s = the sid)
                      (\<lambda>s. s\<lparr>totalVotes := totalVotes s + 1\<rparr>) (sessions st)\<rparr>"
  by (auto simp: post_votes_def Vote_create_def split: option.splits if_splits)

lemma srv_step_users: "\<exists>ys. users (srv_step c st) = users st @ ys"
  by (cases c)
     (auto simp: post_init_def post_auth_login_def post_sessions_start_def post_sessions_end_def
        post_votes_def Let_def split: option.splits sum.splits)

lemma srv_run_users: "\<exists>ys. users (srv_run cs st) = users st @ ys"
proof (induction cs arbitrary: st)
  case Nil
  then show ?case by simp
next
  case (Cons c cs)
  obtain ys where "users (srv_step c st) = users st @ ys"
    using srv_step_users by blast
  moreover obtain zs where "users (srv_run cs (srv_step c st)) = users (srv_step c st) @ zs"
    using Cons.IH by blast
  ultimately show ?case by simp
qed

subsection \<open>At most one active session, on the backend\<close>

lemma srv_step_at_most_one:
  assumes "at_most_one_active (sessions st)"
  shows "at_most_one_active (sessions (srv_step c st))"
proof (cases c)
  case (PostStart uuid now q)
  then show ?thesis
    using assms post_sessions_start_active [of uuid now q st]
    by (auto simp: at_most_one_active_def)
next
  case (PostEnd now i)
  then show ?thesis
    using assms post_sessions_end_active [of now i st]
    by (auto simp: at_most_one_active_def)
qed (use assms in \<open>simp_all add: at_most_one_active_def post_init_sessions
       post_auth_login_sessions post_votes_active\<close>)

lemma srv_run_at_most_one:
  "at_most_one_active (sessions st) \<Longrightarrow> at_most_one_active (sessions (srv_run cs st))"
  by (induction cs arbitrary: st) (auto intro: srv_step_at_most_one)

subsection \<open>Counters, on the backend\<close>

lemma post_votes_inv:
  assumes "srv_inv st"
  shows "srv_inv (snd (post_votes uuid now sid uid unm ty st))"
  using post_votes_result [of uuid now sid uid unm ty st]
proof
  assume "snd (post_votes uuid now sid uid unm ty st) = st"
  with assms show ?thesis by simp
next
  let ?v = "\<lparr>v_id = uuid, sessionId = the sid, userId = the uid, userName = unm,
             vtype = the ty, timestamp = now\<rparr>"
  assume st': "snd (post_votes uuid now sid uid unm ty st) =
     st\<lparr>votes := votes st @ [?v],
        sessions := update_first (\<lambda>s. s_id s = the sid)
                      (\<lambda>s. s\<lparr>totalVotes := totalVotes s + 1\<rparr>) (sessions st)\<rparr>"
  show ?thesis
    using assms counts_match_vote [of "sessions st" "votes st" ?v]
    by (simp add: st' srv_inv_def map_s_id_update_first)
qed

lemma post_sessions_end_inv:
  "srv_inv st \<Longrightarrow> srv_inv (snd (post_sessions_end now i st))"
  by (simp add: post_sessions_end_def Let_def srv_inv_def map_s_id_update_first
        counts_match_update_first_frame)

lemma post_sessions_start_inv:
  assumes "srv_inv st" and "uuid \<notin> sessionId ` set (votes st)"
  shows "srv_inv (snd (post_sessions_start uuid now q st))"
  using assms
  by (auto simp: post_sessions_start_def Session_create_def Let_def srv_inv_def
        counts_match_append counts_match_new map_s_id_deactivate counts_match_deactivate
        s_id_set_deactivate
        split: option.splits sum.splits if_splits)

lemma srv_step_inv:
  assumes "srv_inv st" and "srv_fresh c st"
  shows "srv_inv (srv_step c st)"
proof (cases c)
  case (PostInit now)
  then show ?thesis using assms by (simp add: srv_inv_def post_init_sessions post_init_votes)
next
  case (PostLogin uuid now eid nm rl)
  then show ?thesis
    using assms by (simp add: srv_inv_def post_auth_login_sessions post_auth_login_votes)
next
  case (PostStart uuid now q)
  then show ?thesis using assms by (simp add: post_sessions_start_inv)
next
  case (PostEnd now i)
  then show ?thesis using assms by (simp add: post_sessions_end_inv)
next
  case (PostVote uuid now sid uid unm ty)
  then show ?thesis using assms by (simp add: post_votes_inv)
qed

lemma srv_run_inv:
  "srv_inv st \<Longrightarrow> srv_fresh_run cs st \<Longrightarrow> srv_inv (srv_run cs st)"
  by (induction cs arbitrary: st) (auto intro: srv_step_inv)

section \<open>The localStorage variant: the refresh loop\<close>

text \<open>
  Whatever \<^const>\<open>end_active\<close> preserves, \<^const>\<open>endSession\<close> and
  \<^const>\<open>updateAdminUI\<close> preserve: by induction along their calls.
\<close>

lemma end_loop_preserves:
  assumes step: "\<And>now st. P st \<Longrightarrow> P (end_active now st)"
  shows "P st \<Longrightarrow> P (endSession now st)" and "P st \<Longrightarrow> P (updateAdminUI now st)"
proof (induction now st and now st rule: endSession_updateAdminUI.induct)
  case (1 now st)
  then show ?case by (simp add: step endSession.simps)
next
  case (2 now st)
  then show ?case by (auto simp: updateAdminUI.simps split: option.splits)
qed

lemma end_active_at_most:
  "length (filter isActive (SESSIONS st)) \<le> n \<Longrightarrow>
   length (filter isActive (SESSIONS (end_active now st))) \<le> n"
  using length_active_update_first_off
    [of "\<lambda>s. s\<lparr>isActive := False, endTime := Some now\<rparr>" isActive "SESSIONS st"]
  by (auto simp: end_active_def split: option.splits)

lemma updateAdminUI_at_most:
  "length (filter isActive (SESSIONS st)) \<le> n \<Longrightarrow>
   length (filter isActive (SESSIONS (updateAdminUI now st))) \<le> n"
  by (rule end_loop_preserves(2)
        [where P = "\<lambda>st. length (filter isActive (SESSIONS st)) \<le> n"])
     (auto intro: end_active_at_most)

lemma endSession_at_most:
  "length (filter isActive (SESSIONS st)) \<le> n \<Longrightarrow>
   length (filter isActive (SESSIONS (endSession now st))) \<le> n"
  by (rule end_loop_preserves(1)
        [where P = "\<lambda>st. length (filter isActive (SESSIONS st)) \<le> n"])
     (auto intro: end_active_at_most)

lemma end_active_USERS: "USERS (end_active now st) = USERS st"
  by (simp add: end_active_def split: option.splits)

lemma updateAdminUI_USERS: "USERS (updateAdminUI now st) = USERS st"
  by (rule end_loop_preserves(2) [where P = "\<lambda>s. USERS s = USERS st"])
     (simp_all add: end_active_USERS)

lemma endSession_USERS: "USERS (endSession now st) = USERS st"
  by (rule end_loop_preserves(1) [where P = "\<lambda>s. USERS s = USERS st"])
     (simp_all add: end_active_USERS)

lemma navigate_USERS: "USERS (navigate now st) = USERS st"
  by (simp add: navigate_def updateAdminUI_USERS split: option.splits)

text \<open>A session started at \<open>now\<close> has not expired at \<open>now\<close>: the refresh leaves it.\<close>

lemma updateAdminUI_fresh_session:
  "find isActive (SESSIONS st) = Some s \<Longrightarrow> startTime s = now \<Longrightarrow> updateAdminUI now st = st"
  by (simp add: updateAdminUI.simps getActiveSession_def SESSION_DURATION_MS_def)

lemma startSession_eq:
  "startSession uuid now st =
     st\<lparr>SESSIONS := \<lparr>s_id = uuid, startTime = now, endTime = None, isActive = True,
                       totalVotes = 0\<rparr> # map (\<lambda>s. s\<lparr>isActive := False\<rparr>) (SESSIONS st)\<rparr>"
  by (simp add: startSession_def Let_def updateAdminUI_fresh_session)

lemma startSession_active:
  "filter isActive (SESSIONS (startSession uuid now st)) =
     [\<lparr>s_id = uuid, startTime = now, endTime = None, isActive = True, totalVotes = 0\<rparr>]"
  by (simp add: startSession_eq filter_active_all_off)

lemma endSession_no_active:
  assumes "filter isActive (SESSIONS st) = []"
  shows "endSession now st = st"
proof -
  have none: "find isActive (SESSIONS st) = None"
    using assms by (simp add: find_None_iff_all filter_empty_conv)
  show ?thesis
    by (simp add: endSession.simps updateAdminUI.simps end_active_def getActiveSession_def none)
qed

lemma endSession_one_active:
  assumes "at_most_one_active (SESSIONS st)"
  shows "endSession now st = end_active now st"
    and "filter isActive (SESSIONS (endSession now st)) = []"
proof -
  have off: "filter isActive (SESSIONS (end_active now st)) = []"
  proof (cases "find isActive (SESSIONS st)")
    case None
    then have "\<forall>x \<in> set (SESSIONS st). \<not> isActive x"
      by (simp add: find_None_iff_all)
    then show ?thesis
      by (simp add: end_active_def None filter_empty_conv)
  next
    case (Some s)
    show ?thesis
      using assms by (simp add: end_active_def Some at_most_one_active_def filter_active_end_first)
  qed
  then have none: "find isActive (SESSIONS (end_active now st)) = None"
    by (simp add: find_None_iff_all filter_empty_conv)
  show "endSession now st = end_active now st"
    by (simp add: endSession.simps updateAdminUI.simps getActiveSession_def none)
  with off show "filter isActive (SESSIONS (endSession now st)) = []"
    by simp
qed

subsection \<open>At most one active session, in the localStorage variant\<close>

lemma navigate_at_most:
  "length (filter isActive (SESSIONS st)) \<le> n \<Longrightarrow>
   length (filter isActive (SESSIONS (navigate now st))) \<le> n"
  by (auto simp: navigate_def updateAdminUI_at_most split: option.splits)

lemma handleLogin_at_most:
  "length (filter isActive (SESSIONS st)) \<le> n \<Longrightarrow>
   length (filter isActive (SESSIONS (snd (handleLogin uuid now i nm st)))) \<le> n"
  by (auto simp: handleLogin_def Let_def intro!: navigate_at_most split: option.splits)

lemma castVote_active:
  "length (filter isActive (SESSIONS (castVote uuid now ty st)))
     = length (filter isActive (SESSIONS st))"
  by (auto simp: castVote_def Let_def length_active_update_first_keep split: option.splits)

lemma deleteSession_at_most:
  assumes "length (filter isActive (SESSIONS st)) \<le> n"
  shows "length (filter isActive (SESSIONS (deleteSession confirmed now i st))) \<le> n"
proof -
  have "length (filter isActive (filter (\<lambda>s. s_id s \<noteq> i) (SESSIONS st))) \<le> n"
    using assms length_filter_filter_le [of isActive "\<lambda>s. s_id s \<noteq> i" "SESSIONS st"]
    by linarith
  with assms show ?thesis
    by (auto simp: deleteSession_def intro!: updateAdminUI_at_most)
qed

lemma local_step_at_most_one:
  assumes "at_most_one_active (SESSIONS st)"
  shows "at_most_one_active (SESSIONS (local_step c st))"
proof (cases c)
  case (StartSession uuid now)
  then show ?thesis by (simp add: at_most_one_active_def startSession_active)
qed (use assms in \<open>simp_all add: at_most_one_active_def handleLogin_at_most castVote_active
       deleteSession_at_most endSession_at_most updateAdminUI_at_most setLoginMode_def
       logout_def\<close>)

lemma local_run_at_most_one:
  "at_most_one_active (SESSIONS st) \<Longrightarrow> at_most_one_active (SESSIONS (local_run cs st))"
  by (induction cs arbitrary: st) (auto intro: local_step_at_most_one)

subsection \<open>Counters, in the localStorage variant\<close>

lemma end_active_inv: "local_inv st \<Longrightarrow> local_inv (end_active now st)"
  by (auto simp: end_active_def local_inv_def map_s_id_update_first
        counts_match_update_first_frame split: option.splits)

lemma updateAdminUI_inv: "local_inv st \<Longrightarrow> local_inv (updateAdminUI now st)"
  by (rule end_loop_preserves(2) [where P = local_inv]) (auto intro: end_active_inv)

lemma endSession_inv: "local_inv st \<Longrightarrow> local_inv (endSession now st)"
  by (rule end_loop_preserves(1) [where P = local_inv]) (auto intro: end_active_inv)

lemma navigate_inv: "local_inv st \<Longrightarrow> local_inv (navigate now st)"
  by (auto simp: navigate_def updateAdminUI_inv split: option.splits)

lemma handleLogin_inv: "local_inv st \<Longrightarrow> local_inv (snd (handleLogin uuid now i nm st))"
  by (auto simp: handleLogin_def Let_def local_inv_def
        intro!: navigate_inv [unfolded local_inv_def] split: option.splits)

lemma castVote_inv:
  assumes "local_inv st"
  shows "local_inv (castVote uuid now ty st)"
proof (cases "getActiveSession st")
  case None
  then show ?thesis using assms by (simp add: castVote_def)
next
  case (Some session)
  show ?thesis
  proof (cases "app_user st")
    case None
    then show ?thesis using assms Some by (simp add: castVote_def)
  next
    case (Some u)
    let ?v = "\<lparr>v_id = uuid, sessionId = s_id session, userId = u_id u,
               userName = Some (name u), vtype = ty, timestamp = now\<rparr>"
    have "counts_match
            (update_first (\<lambda>s. s_id s = sessionId ?v)
               (\<lambda>s. s\<lparr>totalVotes := totalVotes s + 1\<rparr>) (SESSIONS st))
            (VOTES st @ [?v])"
      using assms by (intro counts_match_vote) (simp_all add: local_inv_def)
    then show ?thesis
      using assms Some \<open>getActiveSession st = Some session\<close>
      by (simp add: castVote_def Let_def local_inv_def map_s_id_update_first)
  qed
qed

lemma startSession_inv:
  assumes "local_inv st" and "uuid \<notin> s_id ` set (SESSIONS st)"
    and "uuid \<notin> sessionId ` set (VOTES st)"
  shows "local_inv (startSession uuid now st)"
proof -
  have "counts_match (map (\<lambda>s. s\<lparr>isActive := False\<rparr>) (SESSIONS st)) (VOTES st)
          = counts_match (SESSIONS st) (VOTES st)"
    by (rule counts_match_map_frame) auto
  moreover have "votes_of uuid (VOTES st) = []"
    using assms(3) by (force simp: votes_of_def filter_empty_conv)
  ultimately show ?thesis
    using assms by (auto simp: startSession_eq local_inv_def counts_match_Cons comp_def)
qed

lemma deleteSession_inv:
  assumes "local_inv st"
  shows "local_inv (deleteSession confirmed now i st)"
proof (cases confirmed)
  case False
  then show ?thesis using assms by (simp add: deleteSession_def)
next
  case True
  have "local_inv (st\<lparr>SESSIONS := filter (\<lambda>s. s_id s \<noteq> i) (SESSIONS st),
                       VOTES := filter (\<lambda>v. sessionId v \<noteq> i) (VOTES st)\<rparr>)"
    using assms by (simp add: local_inv_def counts_match_delete distinct_map_filter)
  then show ?thesis using True by (simp add: deleteSession_def updateAdminUI_inv)
qed

lemma local_step_inv:
  assumes "local_inv st" and "local_fresh c st"
  shows "local_inv (local_step c st)"
proof (cases c)
  case (SetLoginMode mode)
  then show ?thesis using assms by (simp add: setLoginMode_def local_inv_def)
next
  case Logout
  then show ?thesis using assms by (simp add: logout_def local_inv_def)
qed (use assms in \<open>simp_all add: handleLogin_inv castVote_inv startSession_inv endSession_inv
       deleteSession_inv updateAdminUI_inv\<close>)

lemma local_run_inv:
  "local_inv st \<Longrightarrow> local_fresh_run cs st \<Longrightarrow> local_inv (local_run cs st)"
  by (induction cs arbitrary: st) (auto intro: local_step_inv)

subsection \<open>The stored users only grow\<close>

lemma local_step_USERS: "\<exists>ys. USERS (local_step c st) = USERS st @ ys"
  by (cases c)
     (auto simp: handleLogin_def setLoginMode_def logout_def castVote_def startSession_def
        deleteSession_def Let_def navigate_USERS updateAdminUI_USERS endSession_USERS
        split: option.splits)

lemma local_run_USERS: "\<exists>ys. USERS (local_run cs st) = USERS st @ ys"
proof (induction cs arbitrary: st)
  case Nil
  then show ?case by simp
next
  case (Cons c cs)
  obtain ys where "USERS (local_step c st) = USERS st @ ys"
    using local_step_USERS by blast
  moreover obtain zs where "USERS (local_run cs (local_step c st)) = USERS (local_step c st) @ zs"
    using Cons.IH by blast
  ultimately show ?case by simp
qed

subsection \<open>Logging in with a code that is, or is not, on record\<close>

lemma post_auth_login_unknown:
  assumes "eid \<noteq> []" and "\<forall>u \<in> set (users st). employeeId u \<noteq> eid" and "rl \<noteq> Some ''ADMIN''"
  shows "\<not> truthy nm \<Longrightarrow> post_auth_login uuid now (Some eid) nm rl st = (Inl Unauthorized, st)"
    and "truthy nm \<Longrightarrow> uuid \<noteq> [] \<Longrightarrow> uuid \<notin> u_id ` set (users st) \<Longrightarrow>
         post_auth_login uuid now (Some eid) nm rl st =
           (Inr \<lparr>u_id = uuid, name = the nm, employeeId = eid, role = EMPLOYEE, u_createdAt = now\<rparr>,
            st\<lparr>users := users st @
               [\<lparr>u_id = uuid, name = the nm, employeeId = eid, role = EMPLOYEE,
                 u_createdAt = now\<rparr>]\<rparr>)"
proof -
  have none: "find (\<lambda>u. employeeId u = eid \<and> role u = EMPLOYEE) (users st) = None"
    using assms(2) by (simp add: find_None_iff_all)
  show "\<not> truthy nm \<Longrightarrow> post_auth_login uuid now (Some eid) nm rl st = (Inl Unauthorized, st)"
    using assms none by (simp add: post_auth_login_def)
  have "eid \<notin> employeeId ` set (users st)"
    using assms(2) by auto
  then show "truthy nm \<Longrightarrow> uuid \<noteq> [] \<Longrightarrow> uuid \<notin> u_id ` set (users st) \<Longrightarrow>
         post_auth_login uuid now (Some eid) nm rl st =
           (Inr \<lparr>u_id = uuid, name = the nm, employeeId = eid, role = EMPLOYEE, u_createdAt = now\<rparr>,
            st\<lparr>users := users st @
               [\<lparr>u_id = uuid, name = the nm, employeeId = eid, role = EMPLOYEE,
                 u_createdAt = now\<rparr>]\<rparr>)"
    using assms none by (simp add: post_auth_login_def User_create_def)
qed

lemma post_auth_login_known:
  assumes "eid \<noteq> []" and "\<forall>x \<in> set us. employeeId x \<noteq> eid" and "rl \<noteq> Some ''ADMIN''"
    and "employeeId u = eid" and "role u = EMPLOYEE" and "users st = (us @ [u]) @ ys"
  shows "post_auth_login uuid now (Some eid) nm rl st = (Inr u, st)"
proof -
  have "find (\<lambda>x. employeeId x = eid \<and> role x = EMPLOYEE) (users st) = Some u"
    unfolding assms(6) using assms(2,4,5) by (intro find_new_last) auto
  then show ?thesis using assms(1,3) by (simp add: post_auth_login_def)
qed

lemma handleLogin_known:
  assumes "eid \<noteq> []" and "\<forall>x \<in> set us. employeeId x \<noteq> eid" and "loginMode st \<noteq> ''ADMIN''"
    and "employeeId u = eid" and "role u = EMPLOYEE" and "USERS st = (us @ [u]) @ ys"
  shows "handleLogin uuid now eid nm st =
           (Some (Inr u), st\<lparr>app_user := Some u, CURRENT_USER := Some u\<rparr>)"
proof -
  have "find (\<lambda>x. employeeId x = eid) (USERS st) = Some u"
    unfolding assms(6) using assms(2,4) by (intro find_new_last) auto
  then show ?thesis using assms(1,3,5) by (simp add: handleLogin_def navigate_def)
qed

section \<open>Voting\<close>

text \<open>
  C1 (as amended). On the backend, a vote request for a pair \<open>(sessionId, userId)\<close> that
  already has a vote is refused and the store stays as it was: no vote is added and no
  counter moves. The refusal is \<open>DuplicateVote\<close> when the session id, the user id and the
  type are all supplied; with one of them missing the request is refused earlier, as
  \<open>InvalidArgument\<close>. The statement is about the backend only: \<^verbatim>\<open>castVote\<close> of the
  localStorage variant makes no such check.
\<close>

theorem duplicate_vote_rejected:
  assumes "\<exists>v \<in> set (votes st). sessionId v = sid \<and> userId v = uid"
  shows "post_votes uuid now (Some sid) (Some uid) unm ty st =
           (Inl (if sid \<noteq> [] \<and> uid \<noteq> [] \<and> truthy ty then DuplicateVote else InvalidArgument),
            st)"
proof -
  from assms have "find (\<lambda>v. sessionId v = sid \<and> userId v = uid) (votes st) \<noteq> None"
    by (auto simp: find_None_iff_all)
  then show ?thesis
    by (auto simp: post_votes_def split: option.splits)
qed

theorem duplicate_vote_rejected_witness:
  "find (\<lambda>v. sessionId v = ''s1'' \<and> userId v = ''u1'') (votes store_example) \<noteq> None \<and>
   post_votes ''v2'' 30 (Some ''s1'') (Some ''u1'') (Some ''Asha'') (Some ''TEA'') store_example
     = (Inl DuplicateVote, store_example)"
  using duplicate_vote_rejected
          [of store_example "''s1''" "''u1''" "''v2''" 30 "Some ''Asha''" "Some ''TEA''"]
  by (simp add: store_example_def)

text \<open>
  The claim as it stands fails twice. In the localStorage variant \<^verbatim>\<open>castVote\<close> looks
  for no earlier vote: \<^verbatim>\<open>u1\<close>, who has voted in the active session \<^verbatim>\<open>s1\<close>, votes
  again, the second vote is stored and the counter of the session goes from 1 to 2. On
  the backend the same pair sent without a type is refused as \<open>InvalidArgument\<close>, not as
  \<open>DuplicateVote\<close>.
\<close>

theorem duplicate_vote_counterexample:
  "find (\<lambda>v. sessionId v = ''s1'' \<and> userId v = ''u1'') (VOTES local_example) \<noteq> None \<and>
   VOTES (castVote ''v2'' 30 ''TEA'' local_example) =
     VOTES local_example @
       [\<lparr>v_id = ''v2'', sessionId = ''s1'', userId = ''u1'', userName = Some ''Asha'',
         vtype = ''TEA'', timestamp = 30\<rparr>] \<and>
   map totalVotes (SESSIONS local_example) = [1] \<and>
   map totalVotes (SESSIONS (castVote ''v2'' 30 ''TEA'' local_example)) = [2] \<and>
   find (\<lambda>v. sessionId v = ''s1'' \<and> userId v = ''u1'') (votes store_example) \<noteq> None \<and>
   fst (post_votes ''v2'' 30 (Some ''s1'') (Some ''u1'') (Some ''Asha'') None store_example)
     = Inl InvalidArgument"
  by (simp add: castVote_def local_example_def store_example_def getActiveSession_def
        post_votes_def)

text \<open>
  C7 (as amended). On the backend a vote request whose type is neither \<^verbatim>\<open>COFFEE\<close> nor
  \<^verbatim>\<open>TEA\<close> is always refused and stores nothing, but the refusal is
  \<open>InvalidArgument\<close> only when a required field is missing. With all three fields
  supplied it is \<open>DuplicateVote\<close> when the pair has voted, and otherwise the schema's
  enum refuses the document and the route answers with its generic server
  error (\<open>StorageFailure\<close>, status 500). The statement is about the backend only:
  \<^verbatim>\<open>castVote\<close> of the localStorage variant checks no type.
\<close>

theorem invalid_type_rejected:
  assumes "ty \<noteq> Some ''COFFEE''" and "ty \<noteq> Some ''TEA''"
  shows "post_votes uuid now sid uid unm ty st =
           (Inl (if \<not> truthy sid \<or> \<not> truthy uid \<or> \<not> truthy ty then InvalidArgument
                 else if find (\<lambda>v. sessionId v = the sid \<and> userId v = the uid) (votes st) \<noteq> None
                   then DuplicateVote
                 else StorageFailure),
            st)"
  using assms
  by (cases ty) (auto simp: post_votes_def Vote_create_def split: option.splits)

theorem invalid_type_rejected_witness:
  "post_votes ''v2'' 30 (Some ''s1'') (Some ''u2'') (Some ''Ravi'') (Some ''WATER'') store_example
     = (Inl StorageFailure, store_example) \<and>
   post_votes ''v2'' 30 (Some ''s1'') (Some ''u1'') (Some ''Asha'') (Some ''WATER'') store_example
     = (Inl DuplicateVote, store_example) \<and>
   post_votes ''v2'' 30 (Some ''s1'') (Some ''u2'') (Some ''Ravi'') (Some '''') store_example
     = (Inl InvalidArgument, store_example)"
  using invalid_type_rejected
          [of "Some ''WATER''" "''v2''" 30 "Some ''s1''" "Some ''u2''" "Some ''Ravi''"
              store_example]
        invalid_type_rejected
          [of "Some ''WATER''" "''v2''" 30 "Some ''s1''" "Some ''u1''" "Some ''Asha''"
              store_example]
        invalid_type_rejected
          [of "Some ''''" "''v2''" 30 "Some ''s1''" "Some ''u2''" "Some ''Ravi''"
              store_example]
  by (simp add: store_example_def)

text \<open>
  The claim as it stands fails: \<^verbatim>\<open>u2\<close>, who has not voted, sends the type
  \<^verbatim>\<open>JUICE\<close>; the backend answers 500, not a client error. The localStorage variant
  checks no type at all and stores the vote.
\<close>

theorem invalid_type_counterexample:
  "fst (post_votes ''v2'' 30 (Some ''s1'') (Some ''u2'') (Some ''Ravi'') (Some ''JUICE'')
          store_example) = Inl StorageFailure \<and>
   http_status StorageFailure = 500 \<and>
   VOTES (castVote ''v2'' 30 ''JUICE'' local_example) =
     VOTES local_example @
       [\<lparr>v_id = ''v2'', sessionId = ''s1'', userId = ''u1'', userName = Some ''Asha'',
         vtype = ''JUICE'', timestamp = 30\<rparr>]"
  by (simp add: post_votes_def Vote_create_def store_example_def castVote_def
        local_example_def getActiveSession_def)

text \<open>
  C9 (as amended). A vote request on the backend needs no session: when the session id
  and the user id are supplied, the type is \<^verbatim>\<open>COFFEE\<close> or \<^verbatim>\<open>TEA\<close>, the pair has not
  voted and the generated vote id is not in use, the vote is stored and returned, whether
  or not a session has that id and whether or not it is active. The counter of the first
  session with that id is incremented; when there is none, the sessions stay as they were.
\<close>

theorem vote_needs_no_session:
  assumes "sid \<noteq> []" and "uid \<noteq> []" and "ty = ''COFFEE'' \<or> ty = ''TEA''"
    and "\<forall>v \<in> set (votes st). \<not> (sessionId v = sid \<and> userId v = uid)"
    and "uuid \<noteq> []" and "uuid \<notin> v_id ` set (votes st)"
  shows "post_votes uuid now (Some sid) (Some uid) unm (Some ty) st =
           (Inr \<lparr>v_id = uuid, sessionId = sid, userId = uid, userName = unm, vtype = ty,
                 timestamp = now\<rparr>,
            st\<lparr>votes := votes st @
                  [\<lparr>v_id = uuid, sessionId = sid, userId = uid, userName = unm, vtype = ty,
                    timestamp = now\<rparr>],
               sessions := update_first (\<lambda>s. s_id s = sid)
                             (\<lambda>s. s\<lparr>totalVotes := totalVotes s + 1\<rparr>) (sessions st)\<rparr>) \<and>
         (sid \<notin> s_id ` set (sessions st) \<longrightarrow>
            update_first (\<lambda>s. s_id s = sid) (\<lambda>s. s\<lparr>totalVotes := totalVotes s + 1\<rparr>)
              (sessions st) = sessions st)"
proof -
  from assms(4) have "find (\<lambda>v. sessionId v = sid \<and> userId v = uid) (votes st) = None"
    by (simp add: find_None_iff_all)
  moreover have "sid \<notin> s_id ` set (sessions st) \<Longrightarrow>
      update_first (\<lambda>s. s_id s = sid) (\<lambda>s. s\<lparr>totalVotes := totalVotes s + 1\<rparr>) (sessions st)
        = sessions st"
    by (rule update_first_no_match) auto
  ultimately show ?thesis
    using assms by (auto simp: post_votes_def Vote_create_def)
qed

text \<open>
  The witness votes once for a session id that no session has, and once in the
  session \<^verbatim>\<open>s1\<close> after it was ended.
\<close>

theorem vote_needs_no_session_witness:
  "''ghost'' \<notin> s_id ` set (sessions store_example) \<and>
   post_votes ''v2'' 30 (Some ''ghost'') (Some ''u2'') (Some ''Ravi'') (Some ''TEA'') store_example
     = (Inr \<lparr>v_id = ''v2'', sessionId = ''ghost'', userId = ''u2'', userName = Some ''Ravi'',
             vtype = ''TEA'', timestamp = 30\<rparr>,
        store_example\<lparr>votes := votes store_example @
          [\<lparr>v_id = ''v2'', sessionId = ''ghost'', userId = ''u2'', userName = Some ''Ravi'',
            vtype = ''TEA'', timestamp = 30\<rparr>]\<rparr>) \<and>
   map isActive (sessions (snd (post_sessions_end 25 ''s1'' store_example))) = [False] \<and>
   fst (post_votes ''v2'' 30 (Some ''s1'') (Some ''u2'') (Some ''Ravi'') (Some ''TEA'')
          (snd (post_sessions_end 25 ''s1'' store_example)))
     = Inr \<lparr>v_id = ''v2'', sessionId = ''s1'', userId = ''u2'', userName = Some ''Ravi'',
            vtype = ''TEA'', timestamp = 30\<rparr>"
  using vote_needs_no_session
          [of "''ghost''" "''u2''" "''TEA''" store_example "''v2''" 30 "Some ''Ravi''"]
        vote_needs_no_session
          [of "''s1''" "''u2''" "''TEA''" "snd (post_sessions_end 25 ''s1'' store_example)"
              "''v2''" 30 "Some ''Ravi''"]
  by (simp add: store_example_def post_sessions_end_def)

text \<open>
  The claim as it stands fails: on an empty store, a request with all three fields
  supplied and no earlier vote, but with the type \<^verbatim>\<open>WATER\<close>, stores nothing and is
  answered with an error.
\<close>

theorem vote_needs_no_session_counterexample:
  "truthy (Some ''s1'') \<and> truthy (Some ''u1'') \<and> truthy (Some ''WATER'') \<and>
   find (\<lambda>v. sessionId v = ''s1'' \<and> userId v = ''u1'') (votes empty_store) = None \<and>
   post_votes ''v1'' 5 (Some ''s1'') (Some ''u1'') None (Some ''WATER'') empty_store
     = (Inl StorageFailure, empty_store)"
  by (simp add: post_votes_def Vote_create_def empty_store_def)

section \<open>Sessions\<close>

text \<open>
  C2. From a state with at most one active session, every sequence of operations (the
  starts and ends of sessions, and every other operation as well) leads to a state with
  at most one active session, on the backend and in the localStorage variant. When a
  start completes, the active sessions are exactly the session it created.
\<close>

theorem at_most_one_session_active:
  "(at_most_one_active (sessions st) \<longrightarrow> at_most_one_active (sessions (srv_run cs st))) \<and>
   (post_sessions_start uuid now q st = (Inr s, st') \<longrightarrow> filter isActive (sessions st') = [s]) \<and>
   (at_most_one_active (SESSIONS lst) \<longrightarrow> at_most_one_active (SESSIONS (local_run lcs lst))) \<and>
   filter isActive (SESSIONS (startSession luuid lnow lst)) =
     [\<lparr>s_id = luuid, startTime = lnow, endTime = None, isActive = True, totalVotes = 0\<rparr>]"
  by (simp add: srv_run_at_most_one post_sessions_start_Inr local_run_at_most_one
        startSession_active)

text \<open>
  The witness starts a session while \<^verbatim>\<open>s1\<close> is active, ends it and starts another.
\<close>

theorem at_most_one_session_active_witness:
  "at_most_one_active (sessions store_example) \<and>
   at_most_one_active (sessions (srv_run
      [PostStart ''s2'' 40 (Some ''admin-1''), PostEnd 50 ''s2'',
       PostStart ''s3'' 60 (Some ''admin-1'')] store_example)) \<and>
   fst (post_sessions_start ''s2'' 40 (Some ''admin-1'') store_example) =
     Inr \<lparr>s_id = ''s2'', startTime = 40, endTime = None, isActive = True, totalVotes = 0,
           s_createdAt = 40\<rparr> \<and>
   filter isActive
     (sessions (snd (post_sessions_start ''s2'' 40 (Some ''admin-1'') store_example))) =
     [\<lparr>s_id = ''s2'', startTime = 40, endTime = None, isActive = True, totalVotes = 0,
       s_createdAt = 40\<rparr>] \<and>
   at_most_one_active (SESSIONS local_example) \<and>
   at_most_one_active (SESSIONS (local_run
      [StartSession ''s2'' 40, EndSession 50, StartSession ''s3'' 60] local_example))"
proof -
  let ?s2 = "\<lparr>s_id = ''s2'', startTime = 40, endTime = None, isActive = True, totalVotes = 0,
              s_createdAt = 40\<rparr>"
  have start: "fst (post_sessions_start ''s2'' 40 (Some ''admin-1'') store_example) = Inr ?s2"
    by (simp add: post_sessions_start_def User_findOne_id_def Session_create_def
          Session_updateMany_inactive_def store_example_def)
  then have pair: "post_sessions_start ''s2'' 40 (Some ''admin-1'') store_example =
      (Inr ?s2, snd (post_sessions_start ''s2'' 40 (Some ''admin-1'') store_example))"
    by (metis prod.collapse)
  have srv: "at_most_one_active (sessions store_example)"
    by (simp add: at_most_one_active_def store_example_def)
  have loc: "at_most_one_active (SESSIONS local_example)"
    by (simp add: at_most_one_active_def local_example_def)
  show ?thesis
    using at_most_one_session_active
            [of store_example
                "[PostStart ''s2'' 40 (Some ''admin-1''), PostEnd 50 ''s2'',
                  PostStart ''s3'' 60 (Some ''admin-1'')]"
                "''s2''" 40 "Some ''admin-1''" ?s2
                "snd (post_sessions_start ''s2'' 40 (Some ''admin-1'') store_example)"
                local_example
                "[StartSession ''s2'' 40, EndSession 50, StartSession ''s3'' 60]"]
          start pair srv loc
    by blast
qed

text \<open>
  C3. From a state in which the session ids are distinct and every counter equals the
  number of votes for its session (the empty store is one), every sequence of completed
  operations in which each new session gets an unused id leads to a state in which, for
  every session, \<^verbatim>\<open>totalVotes\<close> is the number of votes whose \<^verbatim>\<open>sessionId\<close> is the id
  of the session. This holds on the backend and in the localStorage variant (where
  sessions can also be deleted, together with their votes).
\<close>

theorem totalVotes_counts_votes:
  "(srv_inv st \<and> srv_fresh_run cs st \<longrightarrow>
      (\<forall>s \<in> set (sessions (srv_run cs st)).
         totalVotes s
           = int (length (filter (\<lambda>v. sessionId v = s_id s) (votes (srv_run cs st)))))) \<and>
   (local_inv lst \<and> local_fresh_run lcs lst \<longrightarrow>
      (\<forall>s \<in> set (SESSIONS (local_run lcs lst)).
         totalVotes s
           = int (length (filter (\<lambda>v. sessionId v = s_id s) (VOTES (local_run lcs lst))))))"
proof (intro conjI impI)
  assume "srv_inv st \<and> srv_fresh_run cs st"
  then have "srv_inv (srv_run cs st)" by (simp add: srv_run_inv)
  then show "\<forall>s \<in> set (sessions (srv_run cs st)).
         totalVotes s = int (length (filter (\<lambda>v. sessionId v = s_id s) (votes (srv_run cs st))))"
    by (simp add: srv_inv_def counts_match_def votes_of_def)
next
  assume "local_inv lst \<and> local_fresh_run lcs lst"
  then have "local_inv (local_run lcs lst)" by (simp add: local_run_inv)
  then show "\<forall>s \<in> set (SESSIONS (local_run lcs lst)).
         totalVotes s = int (length (filter (\<lambda>v. sessionId v = s_id s) (VOTES (local_run lcs lst))))"
    by (simp add: local_inv_def counts_match_def votes_of_def)
qed

text \<open>
  The witness runs both variants from their initial states: the admin starts a session,
  an employee registers and votes, a second vote follows (refused by the backend, stored
  by the localStorage variant), and the session is ended.
\<close>

theorem totalVotes_counts_votes_witness:
  "srv_inv empty_store \<and> srv_fresh_run requests_example empty_store \<and>
   map totalVotes (sessions (srv_run requests_example empty_store)) = [1] \<and>
   map sessionId (votes (srv_run requests_example empty_store)) = [''s1''] \<and>
   list_all
     (\<lambda>s. totalVotes s = int (length (filter (\<lambda>v. sessionId v = s_id s)
        (votes (srv_run requests_example empty_store)))))
     (sessions (srv_run requests_example empty_store)) \<and>
   local_inv initial_local \<and> local_fresh_run actions_example initial_local \<and>
   map totalVotes (SESSIONS (local_run actions_example initial_local)) = [2] \<and>
   map sessionId (VOTES (local_run actions_example initial_local)) = [''s1'', ''s1''] \<and>
   list_all
     (\<lambda>s. totalVotes s = int (length (filter (\<lambda>v. sessionId v = s_id s)
        (VOTES (local_run actions_example initial_local)))))
     (SESSIONS (local_run actions_example initial_local))"
proof -
  have s0: "srv_inv empty_store"
    by (simp add: srv_inv_def empty_store_def counts_match_def)
  have run: "srv_run requests_example empty_store =
      \<lparr>users =
         [\<lparr>u_id = ''admin-1'', name = ''Event Manager'', employeeId = ''ADM001'', role = ADMIN,
           u_createdAt = 1\<rparr>,
          \<lparr>u_id = ''u1'', name = ''Asha'', employeeId = ''EMP1'', role = EMPLOYEE,
           u_createdAt = 2\<rparr>],
       sessions =
         [\<lparr>s_id = ''s1'', startTime = 10, endTime = Some 30, isActive = False, totalVotes = 1,
           s_createdAt = 10\<rparr>],
       votes =
         [\<lparr>v_id = ''v1'', sessionId = ''s1'', userId = ''u1'', userName = Some ''Asha'',
           vtype = ''COFFEE'', timestamp = 20\<rparr>]\<rparr>"
    by (simp add: requests_example_def empty_store_def post_init_def post_auth_login_def
          post_sessions_start_def post_votes_def post_sessions_end_def User_create_def
          Session_create_def Vote_create_def User_findOne_id_def
          Session_updateMany_inactive_def)
  have s1: "srv_fresh_run requests_example empty_store"
    by (simp add: requests_example_def empty_store_def post_init_def post_auth_login_def
          post_sessions_start_def post_votes_def post_sessions_end_def User_create_def
          Session_create_def Vote_create_def User_findOne_id_def
          Session_updateMany_inactive_def)
  have l0: "local_inv initial_local"
    by (simp add: local_inv_def initial_local_def counts_match_def)
  have lrun: "local_run actions_example initial_local =
      \<lparr>USERS =
         [ADMIN_USER, \<lparr>u_id = ''u1'', name = ''Asha'', employeeId = ''EMP1'', role = EMPLOYEE\<rparr>],
       SESSIONS =
         [\<lparr>s_id = ''s1'', startTime = 10, endTime = Some 30, isActive = False,
           totalVotes = 2\<rparr>],
       VOTES =
         [\<lparr>v_id = ''v1'', sessionId = ''s1'', userId = ''u1'', userName = Some ''Asha'',
           vtype = ''COFFEE'', timestamp = 20\<rparr>,
          \<lparr>v_id = ''v2'', sessionId = ''s1'', userId = ''u1'', userName = Some ''Asha'',
           vtype = ''TEA'', timestamp = 21\<rparr>],
       CURRENT_USER = Some \<lparr>u_id = ''u1'', name = ''Asha'', employeeId = ''EMP1'', role = EMPLOYEE\<rparr>,
       app_user = Some \<lparr>u_id = ''u1'', name = ''Asha'', employeeId = ''EMP1'', role = EMPLOYEE\<rparr>,
       loginMode = ''EMPLOYEE''\<rparr>"
    by (simp add: actions_example_def initial_local_def ADMIN_USER_def setLoginMode_def
          handleLogin_def navigate_def updateAdminUI.simps endSession.simps end_active_def
          getActiveSession_def startSession_eq logout_def castVote_def deleteSession_def Let_def
          SESSION_DURATION_MS_def)
  have l1: "local_fresh_run actions_example initial_local"
    by (simp add: actions_example_def initial_local_def ADMIN_USER_def setLoginMode_def
          handleLogin_def navigate_def updateAdminUI.simps getActiveSession_def
          startSession_eq logout_def)
  show ?thesis
    using totalVotes_counts_votes [of empty_store requests_example initial_local actions_example]
      s0 s1 l0 l1
    by (simp add: list_all_iff run lrun)
qed

text \<open>
  C4 (as amended). On the backend, a start request whose \<^verbatim>\<open>userId\<close> is absent, matches
  no user, or matches a user who is not an admin is refused as \<open>Forbidden\<close>, and the
  store stays as it was: no session is created and none is deactivated. For an admin
  (and a generated id that is not in use) the request succeeds: the active sessions are
  deactivated and the new session is stored and returned. The statement is about the
  backend only: \<^verbatim>\<open>startSession\<close> of the localStorage variant takes no requester and
  asks for no role.
\<close>

theorem start_session_admin_only:
  "((case User_findOne_id q (users st) of None \<Rightarrow> True | Some u \<Rightarrow> role u \<noteq> ADMIN) \<longrightarrow>
      post_sessions_start uuid now q st = (Inl Forbidden, st)) \<and>
   ((case User_findOne_id q (users st) of None \<Rightarrow> False | Some u \<Rightarrow> role u = ADMIN) \<and>
    uuid \<noteq> [] \<and> uuid \<notin> s_id ` set (sessions st) \<longrightarrow>
      post_sessions_start uuid now q st =
        (Inr \<lparr>s_id = uuid, startTime = now, endTime = None, isActive = True, totalVotes = 0,
              s_createdAt = now\<rparr>,
         st\<lparr>sessions := Session_updateMany_inactive (sessions st) @
              [\<lparr>s_id = uuid, startTime = now, endTime = None, isActive = True, totalVotes = 0,
                s_createdAt = now\<rparr>]\<rparr>))"
  by (auto simp: post_sessions_start_def Session_create_def Let_def s_id_set_deactivate
        split: option.splits)

theorem start_session_admin_only_witness:
  "post_sessions_start ''s2'' 40 None store_example = (Inl Forbidden, store_example) \<and>
   post_sessions_start ''s2'' 40 (Some ''nobody'') store_example = (Inl Forbidden, store_example) \<and>
   post_sessions_start ''s2'' 40 (Some ''u1'') store_example = (Inl Forbidden, store_example) \<and>
   post_sessions_start ''s2'' 40 (Some ''admin-1'') store_example =
     (Inr \<lparr>s_id = ''s2'', startTime = 40, endTime = None, isActive = True, totalVotes = 0,
           s_createdAt = 40\<rparr>,
      store_example\<lparr>sessions :=
        [\<lparr>s_id = ''s1'', startTime = 10, endTime = None, isActive = False, totalVotes = 1,
          s_createdAt = 10\<rparr>,
         \<lparr>s_id = ''s2'', startTime = 40, endTime = None, isActive = True, totalVotes = 0,
          s_createdAt = 40\<rparr>]\<rparr>)"
  using start_session_admin_only [of None store_example "''s2''" 40]
        start_session_admin_only [of "Some ''nobody''" store_example "''s2''" 40]
        start_session_admin_only [of "Some ''u1''" store_example "''s2''" 40]
        start_session_admin_only [of "Some ''admin-1''" store_example "''s2''" 40]
  by (simp add: store_example_def User_findOne_id_def Session_updateMany_inactive_def)

text \<open>
  The claim as it stands fails in the localStorage variant, where \<^verbatim>\<open>startSession\<close> asks
  for no role: with the employee \<^verbatim>\<open>u1\<close> logged in it deactivates \<^verbatim>\<open>s1\<close> and creates
  \<^verbatim>\<open>s2\<close>.
\<close>

theorem start_session_local_counterexample:
  "map_option role (app_user local_example) = Some EMPLOYEE \<and>
   SESSIONS (startSession ''s2'' 40 local_example) =
     [\<lparr>s_id = ''s2'', startTime = 40, endTime = None, isActive = True, totalVotes = 0\<rparr>,
      \<lparr>s_id = ''s1'', startTime = 10, endTime = None, isActive = False, totalVotes = 1\<rparr>]"
  by (simp add: startSession_eq local_example_def)

text \<open>
  C5. On the backend, whatever the state, the active-session request called with a
  \<^verbatim>\<open>userId\<close> (one that the route's own test \<^verbatim>\<open>if (req.query.userId)\<close> takes as
  supplied, so not the empty string) that matches no user, or matches a user who is not
  an admin, answers \<^verbatim>\<open>null\<close>, also while a session is active.
\<close>

theorem non_admin_sees_no_active_session:
  assumes "truthy q"
    and "case User_findOne_id q (users st) of None \<Rightarrow> True | Some u \<Rightarrow> role u \<noteq> ADMIN"
  shows "get_sessions_active q st = None"
  using assms by (simp add: get_sessions_active_def)

text \<open>
  Without a \<^verbatim>\<open>userId\<close>, or with an empty one, the route asks for no role and answers
  with the active session.
\<close>

lemma get_sessions_active_no_userId:
  "\<not> truthy q \<Longrightarrow> get_sessions_active q st = find isActive (sessions st)"
  by (simp add: get_sessions_active_def)

text \<open>
  The witness asks while \<^verbatim>\<open>s1\<close> is active, once as an unknown user and once as the
  employee \<^verbatim>\<open>u1\<close>.
\<close>

theorem non_admin_sees_no_active_session_witness:
  "find isActive (sessions store_example) \<noteq> None \<and>
   User_findOne_id (Some ''nobody'') (users store_example) = None \<and>
   get_sessions_active (Some ''nobody'') store_example = None \<and>
   map_option role (User_findOne_id (Some ''u1'') (users store_example)) = Some EMPLOYEE \<and>
   get_sessions_active (Some ''u1'') store_example = None"
  using non_admin_sees_no_active_session [of "Some ''nobody''" store_example]
        non_admin_sees_no_active_session [of "Some ''u1''" store_example]
  by (simp add: store_example_def User_findOne_id_def)

text \<open>
  C8 (as amended). Ending a session that is already ended leaves it ended. On the
  backend the second call stores and returns the same record as the first except for
  \<^verbatim>\<open>endTime\<close>, which takes the time of the second call: the store is what the second
  call alone would have left. In the localStorage variant \<^verbatim>\<open>endSession\<close> names no
  session and ends the active one; with at most one session active, a second call
  changes nothing.
\<close>

theorem end_session_twice:
  "(find (\<lambda>s. s_id s = i) (sessions st) = Some s \<longrightarrow>
      fst (post_sessions_end t1 i st) = Inr (Some (s\<lparr>isActive := False, endTime := Some t1\<rparr>)) \<and>
      post_sessions_end t2 i (snd (post_sessions_end t1 i st)) =
        (Inr (Some (s\<lparr>isActive := False, endTime := Some t2\<rparr>)),
         snd (post_sessions_end t2 i st))) \<and>
   (at_most_one_active (SESSIONS lst) \<longrightarrow> endSession t2 (endSession t1 lst) = endSession t1 lst)"
proof (intro conjI impI)
  assume f: "find (\<lambda>s. s_id s = i) (sessions st) = Some s"
  then show "fst (post_sessions_end t1 i st)
               = Inr (Some (s\<lparr>isActive := False, endTime := Some t1\<rparr>))"
    by (simp add: post_sessions_end_def Let_def)
  have "find (\<lambda>s. s_id s = i)
          (update_first (\<lambda>s. s_id s = i) (\<lambda>s. s\<lparr>isActive := False, endTime := Some t1\<rparr>)
             (sessions st))
        = Some (s\<lparr>isActive := False, endTime := Some t1\<rparr>)"
    using f by (simp add: find_update_first)
  moreover have "update_first (\<lambda>s. s_id s = i) (\<lambda>s. s\<lparr>isActive := False, endTime := Some t2\<rparr>)
          (update_first (\<lambda>s. s_id s = i) (\<lambda>s. s\<lparr>isActive := False, endTime := Some t1\<rparr>)
             (sessions st))
        = update_first (\<lambda>s. s_id s = i) (\<lambda>s. s\<lparr>isActive := False, endTime := Some t2\<rparr>)
            (sessions st)"
    by (rule update_first_twice) simp_all
  ultimately show "post_sessions_end t2 i (snd (post_sessions_end t1 i st)) =
        (Inr (Some (s\<lparr>isActive := False, endTime := Some t2\<rparr>)),
         snd (post_sessions_end t2 i st))"
    by (simp add: post_sessions_end_def Let_def)
next
  assume "at_most_one_active (SESSIONS lst)"
  then have "filter isActive (SESSIONS (endSession t1 lst)) = []"
    by (rule endSession_one_active(2))
  then show "endSession t2 (endSession t1 lst) = endSession t1 lst"
    by (rule endSession_no_active)
qed

theorem end_session_twice_witness:
  "fst (post_sessions_end 30 ''s1'' store_example) =
     Inr (Some \<lparr>s_id = ''s1'', startTime = 10, endTime = Some 30, isActive = False,
                 totalVotes = 1, s_createdAt = 10\<rparr>) \<and>
   fst (post_sessions_end 40 ''s1'' (snd (post_sessions_end 30 ''s1'' store_example))) =
     Inr (Some \<lparr>s_id = ''s1'', startTime = 10, endTime = Some 40, isActive = False,
                 totalVotes = 1, s_createdAt = 10\<rparr>) \<and>
   at_most_one_active (SESSIONS local_example) \<and>
   endSession 40 (endSession 30 local_example) = endSession 30 local_example"
proof -
  have f: "find (\<lambda>s. s_id s = ''s1'') (sessions store_example) =
      Some \<lparr>s_id = ''s1'', startTime = 10, endTime = None, isActive = True, totalVotes = 1,
            s_createdAt = 10\<rparr>"
    by (simp add: store_example_def)
  have l: "at_most_one_active (SESSIONS local_example)"
    by (simp add: at_most_one_active_def local_example_def)
  show ?thesis
    using end_session_twice
            [of "''s1''" store_example
                "\<lparr>s_id = ''s1'', startTime = 10, endTime = None, isActive = True,
                  totalVotes = 1, s_createdAt = 10\<rparr>" 30 40 local_example] f l
    by simp
qed

text \<open>
  The claim as it stands fails on the backend: \<^verbatim>\<open>s1\<close> is ended at time 30 and again at
  time 40, and the second call replaces the \<^verbatim>\<open>endTime\<close> of the first.
\<close>

theorem end_session_twice_counterexample:
  "map endTime (sessions (snd (post_sessions_end 30 ''s1'' store_example))) = [Some 30] \<and>
   map isActive (sessions (snd (post_sessions_end 30 ''s1'' store_example))) = [False] \<and>
   map endTime (sessions (snd (post_sessions_end 40 ''s1''
                                 (snd (post_sessions_end 30 ''s1'' store_example))))) = [Some 40]"
  by (simp add: post_sessions_end_def store_example_def)

text \<open>
  C10. Ending a session whose id matches no stored session succeeds with a \<^verbatim>\<open>null\<close>
  result (no NotFound error) and leaves every session, and the rest of the store, as it was.
\<close>

theorem end_unknown_session_is_null:
  assumes "\<forall>s \<in> set (sessions st). s_id s \<noteq> i"
  shows "post_sessions_end now i st = (Inr None, st)"
  using assms by (simp add: post_sessions_end_def update_first_no_match find_no_match)

theorem end_unknown_session_is_null_witness:
  "''s2'' \<notin> s_id ` set (sessions store_example) \<and>
   post_sessions_end 30 ''s2'' store_example = (Inr None, store_example)"
  using end_unknown_session_is_null [of store_example "''s2''" 30]
  by (simp add: store_example_def)

section \<open>Login\<close>

text \<open>
  C6. An employee login (a login whose role is not \<^verbatim>\<open>ADMIN\<close>) with a supplied
  (non-empty) employee id that no stored user has:
  \<^item> without a name, is refused as \<open>Unauthorized\<close> and stores no user;
  \<^item> with a name (and, on the backend, a generated id that is not in use), stores exactly
    one new user with the role \<^verbatim>\<open>EMPLOYEE\<close> and returns it;
  \<^item> after that, and after any further operations, every employee login with the same
    employee id returns that same user, whatever name it sends, and leaves the stored
    users as they are (in the localStorage variant it only records who is logged in).
  The first half of the statement is the backend, the second the localStorage variant.
\<close>

theorem employee_login_registers_once:
  assumes "eid \<noteq> []"
  shows
   "((\<forall>u \<in> set (users st). employeeId u \<noteq> eid) \<and> rl \<noteq> Some ''ADMIN'' \<longrightarrow>
       (\<not> truthy nm \<longrightarrow> post_auth_login uuid now (Some eid) nm rl st = (Inl Unauthorized, st)) \<and>
       (truthy nm \<and> uuid \<noteq> [] \<and> uuid \<notin> u_id ` set (users st) \<longrightarrow>
          (let u = \<lparr>u_id = uuid, name = the nm, employeeId = eid, role = EMPLOYEE,
                    u_createdAt = now\<rparr>;
               st1 = st\<lparr>users := users st @ [u]\<rparr>
           in post_auth_login uuid now (Some eid) nm rl st = (Inr u, st1) \<and>
              (\<forall>cs uuid' now' nm' rl'. rl' \<noteq> Some ''ADMIN'' \<longrightarrow>
                 post_auth_login uuid' now' (Some eid) nm' rl' (srv_run cs st1)
                   = (Inr u, srv_run cs st1))))) \<and>
    ((\<forall>u \<in> set (USERS lst). employeeId u \<noteq> eid) \<and> loginMode lst \<noteq> ''ADMIN'' \<longrightarrow>
       handleLogin uuid now eid [] lst = (Some (Inl Unauthorized), lst) \<and>
       (lnm \<noteq> [] \<longrightarrow>
          (let u = \<lparr>u_id = uuid, name = lnm, employeeId = eid, role = EMPLOYEE\<rparr>;
               lst1 = lst\<lparr>USERS := USERS lst @ [u], app_user := Some u, CURRENT_USER := Some u\<rparr>
           in handleLogin uuid now eid lnm lst = (Some (Inr u), lst1) \<and>
              (\<forall>lcs uuid' now' nm'. loginMode (local_run lcs lst1) \<noteq> ''ADMIN'' \<longrightarrow>
                 handleLogin uuid' now' eid nm' (local_run lcs lst1)
                   = (Some (Inr u),
                      (local_run lcs lst1)\<lparr>app_user := Some u, CURRENT_USER := Some u\<rparr>)))))"
proof (intro conjI impI)
  assume a: "(\<forall>u \<in> set (users st). employeeId u \<noteq> eid) \<and> rl \<noteq> Some ''ADMIN''"
  show "\<not> truthy nm \<Longrightarrow> post_auth_login uuid now (Some eid) nm rl st = (Inl Unauthorized, st)"
    using assms a by (simp add: post_auth_login_unknown(1))
  assume b: "truthy nm \<and> uuid \<noteq> [] \<and> uuid \<notin> u_id ` set (users st)"
  let ?u = "\<lparr>u_id = uuid, name = the nm, employeeId = eid, role = EMPLOYEE, u_createdAt = now\<rparr>"
  let ?st1 = "st\<lparr>users := users st @ [?u]\<rparr>"
  have first: "post_auth_login uuid now (Some eid) nm rl st = (Inr ?u, ?st1)"
    using assms a b by (simp add: post_auth_login_unknown(2))
  have later: "post_auth_login uuid' now' (Some eid) nm' rl' (srv_run cs ?st1)
                 = (Inr ?u, srv_run cs ?st1)" if "rl' \<noteq> Some ''ADMIN''" for cs uuid' now' nm' rl'
  proof -
    obtain ys where "users (srv_run cs ?st1) = (users st @ [?u]) @ ys"
      using srv_run_users [of cs ?st1] by auto
    then show ?thesis
      using assms a that by (intro post_auth_login_known [where us = "users st" and ys = ys]) auto
  qed
  show "let u = ?u; st1 = st\<lparr>users := users st @ [u]\<rparr>
        in post_auth_login uuid now (Some eid) nm rl st = (Inr u, st1) \<and>
           (\<forall>cs uuid' now' nm' rl'. rl' \<noteq> Some ''ADMIN'' \<longrightarrow>
              post_auth_login uuid' now' (Some eid) nm' rl' (srv_run cs st1)
                = (Inr u, srv_run cs st1))"
    using first later by (simp add: Let_def)
next
  assume a: "(\<forall>u \<in> set (USERS lst). employeeId u \<noteq> eid) \<and> loginMode lst \<noteq> ''ADMIN''"
  then have none: "find (\<lambda>u. employeeId u = eid) (USERS lst) = None"
    by (simp add: find_None_iff_all)
  show "handleLogin uuid now eid [] lst = (Some (Inl Unauthorized), lst)"
    using assms a none by (simp add: handleLogin_def)
  assume b: "lnm \<noteq> []"
  let ?u = "\<lparr>u_id = uuid, name = lnm, employeeId = eid, role = EMPLOYEE\<rparr>"
  let ?lst1 = "lst\<lparr>USERS := USERS lst @ [?u], app_user := Some ?u, CURRENT_USER := Some ?u\<rparr>"
  have first: "handleLogin uuid now eid lnm lst = (Some (Inr ?u), ?lst1)"
    using assms a b none by (simp add: handleLogin_def navigate_def Let_def)
  have later: "handleLogin uuid' now' eid nm' (local_run lcs ?lst1)
                 = (Some (Inr ?u), (local_run lcs ?lst1)\<lparr>app_user := Some ?u, CURRENT_USER := Some ?u\<rparr>)"
    if "loginMode (local_run lcs ?lst1) \<noteq> ''ADMIN''" for lcs uuid' now' nm'
  proof -
    obtain ys where "USERS (local_run lcs ?lst1) = (USERS lst @ [?u]) @ ys"
      using local_run_USERS [of lcs ?lst1] by auto
    then show ?thesis
      using assms a that by (intro handleLogin_known [where us = "USERS lst" and ys = ys]) auto
  qed
  show "let u = ?u;
            lst1 = lst\<lparr>USERS := USERS lst @ [u], app_user := Some u, CURRENT_USER := Some u\<rparr>
        in handleLogin uuid now eid lnm lst = (Some (Inr u), lst1) \<and>
           (\<forall>lcs uuid' now' nm'. loginMode (local_run lcs lst1) \<noteq> ''ADMIN'' \<longrightarrow>
              handleLogin uuid' now' eid nm' (local_run lcs lst1)
                = (Some (Inr u),
                   (local_run lcs lst1)\<lparr>app_user := Some u, CURRENT_USER := Some u\<rparr>))"
    using first later by (simp add: Let_def)
qed

text \<open>
  The witness registers \<^verbatim>\<open>EMP9\<close> as Zoe in both variants; a later login under another
  name, after a vote (and, in the browser, a logout), still returns Zoe.
\<close>

theorem employee_login_registers_once_witness:
  "''EMP9'' \<notin> employeeId ` set (users store_example) \<and>
   post_auth_login ''u9'' 50 (Some ''EMP9'') None (Some ''EMPLOYEE'') store_example
     = (Inl Unauthorized, store_example) \<and>
   post_auth_login ''u9'' 50 (Some ''EMP9'') (Some ''Zoe'') (Some ''EMPLOYEE'') store_example
     = (Inr \<lparr>u_id = ''u9'', name = ''Zoe'', employeeId = ''EMP9'', role = EMPLOYEE,
             u_createdAt = 50\<rparr>,
        store_example\<lparr>users := users store_example @
          [\<lparr>u_id = ''u9'', name = ''Zoe'', employeeId = ''EMP9'', role = EMPLOYEE,
            u_createdAt = 50\<rparr>]\<rparr>) \<and>
   fst (post_auth_login ''u10'' 70 (Some ''EMP9'') (Some ''Zed'') None
          (srv_run [PostVote ''v2'' 60 (Some ''s1'') (Some ''u9'') (Some ''Zoe'') (Some ''TEA'')]
             (store_example\<lparr>users := users store_example @
                [\<lparr>u_id = ''u9'', name = ''Zoe'', employeeId = ''EMP9'', role = EMPLOYEE,
                  u_createdAt = 50\<rparr>]\<rparr>)))
     = Inr \<lparr>u_id = ''u9'', name = ''Zoe'', employeeId = ''EMP9'', role = EMPLOYEE,
            u_createdAt = 50\<rparr> \<and>
   ''EMP9'' \<notin> employeeId ` set (USERS local_example) \<and>
   handleLogin ''u9'' 50 ''EMP9'' [] local_example = (Some (Inl Unauthorized), local_example) \<and>
   fst (handleLogin ''u9'' 50 ''EMP9'' ''Zoe'' local_example)
     = Some (Inr \<lparr>u_id = ''u9'', name = ''Zoe'', employeeId = ''EMP9'', role = EMPLOYEE\<rparr>) \<and>
   fst (handleLogin ''u10'' 70 ''EMP9'' ''Zed''
          (local_run [CastVote ''v2'' 60 ''TEA'', Logout]
             (local_example\<lparr>USERS := USERS local_example @
                  [\<lparr>u_id = ''u9'', name = ''Zoe'', employeeId = ''EMP9'', role = EMPLOYEE\<rparr>],
                app_user := Some \<lparr>u_id = ''u9'', name = ''Zoe'', employeeId = ''EMP9'',
                                  role = EMPLOYEE\<rparr>,
                CURRENT_USER := Some \<lparr>u_id = ''u9'', name = ''Zoe'', employeeId = ''EMP9'',
                                      role = EMPLOYEE\<rparr>\<rparr>)))
     = Some (Inr \<lparr>u_id = ''u9'', name = ''Zoe'', employeeId = ''EMP9'', role = EMPLOYEE\<rparr>)"
proof -
  have h: "\<forall>u \<in> set (users store_example). employeeId u \<noteq> ''EMP9''"
    by (simp add: store_example_def)
  have lh: "\<forall>u \<in> set (USERS local_example). employeeId u \<noteq> ''EMP9''"
    by (simp add: local_example_def ADMIN_USER_def)
  have lm: "loginMode local_example \<noteq> ''ADMIN''"
    by (simp add: local_example_def)
  have lm': "loginMode (local_run [CastVote ''v2'' 60 ''TEA'', Logout]
             (local_example\<lparr>USERS := USERS local_example @
                  [\<lparr>u_id = ''u9'', name = ''Zoe'', employeeId = ''EMP9'', role = EMPLOYEE\<rparr>],
                app_user := Some \<lparr>u_id = ''u9'', name = ''Zoe'', employeeId = ''EMP9'',
                                  role = EMPLOYEE\<rparr>,
                CURRENT_USER := Some \<lparr>u_id = ''u9'', name = ''Zoe'', employeeId = ''EMP9'',
                                      role = EMPLOYEE\<rparr>\<rparr>)) \<noteq> ''ADMIN''"
    by (simp add: local_example_def castVote_def logout_def getActiveSession_def)
  note none = employee_login_registers_once
      [where eid = "''EMP9''" and st = store_example and rl = "Some ''EMPLOYEE''" and nm = None
         and uuid = "''u9''" and now = 50 and lst = local_example and lnm = "''Zoe''"]
  note zoe = employee_login_registers_once
      [where eid = "''EMP9''" and st = store_example and rl = "Some ''EMPLOYEE''"
         and nm = "Some ''Zoe''" and uuid = "''u9''" and now = 50 and lst = local_example
         and lnm = "''Zoe''", unfolded Let_def]
  have u9: "''u9'' \<notin> u_id ` set (users store_example)"
    by (simp add: store_example_def)
  from none h have 1: "post_auth_login ''u9'' 50 (Some ''EMP9'') None (Some ''EMPLOYEE'')
      store_example = (Inl Unauthorized, store_example)"
    by simp
  from zoe h u9 have 2: "post_auth_login ''u9'' 50 (Some ''EMP9'') (Some ''Zoe'')
      (Some ''EMPLOYEE'') store_example
     = (Inr \<lparr>u_id = ''u9'', name = ''Zoe'', employeeId = ''EMP9'', role = EMPLOYEE,
             u_createdAt = 50\<rparr>,
        store_example\<lparr>users := users store_example @
          [\<lparr>u_id = ''u9'', name = ''Zoe'', employeeId = ''EMP9'', role = EMPLOYEE,
            u_createdAt = 50\<rparr>]\<rparr>)"
    by simp
  from zoe h u9 have 3: "\<And>cs uuid' now' nm' rl'. rl' \<noteq> Some ''ADMIN'' \<Longrightarrow>
      post_auth_login uuid' now' (Some ''EMP9'') nm' rl'
        (srv_run cs (store_example\<lparr>users := users store_example @
          [\<lparr>u_id = ''u9'', name = ''Zoe'', employeeId = ''EMP9'', role = EMPLOYEE,
            u_createdAt = 50\<rparr>]\<rparr>))
      = (Inr \<lparr>u_id = ''u9'', name = ''Zoe'', employeeId = ''EMP9'', role = EMPLOYEE,
              u_createdAt = 50\<rparr>,
         srv_run cs (store_example\<lparr>users := users store_example @
          [\<lparr>u_id = ''u9'', name = ''Zoe'', employeeId = ''EMP9'', role = EMPLOYEE,
            u_createdAt = 50\<rparr>]\<rparr>))"
    by simp
  from zoe lh lm have 4: "handleLogin ''u9'' 50 ''EMP9'' [] local_example
      = (Some (Inl Unauthorized), local_example)"
    by simp
  from zoe lh lm have 5: "fst (handleLogin ''u9'' 50 ''EMP9'' ''Zoe'' local_example)
     = Some (Inr \<lparr>u_id = ''u9'', name = ''Zoe'', employeeId = ''EMP9'', role = EMPLOYEE\<rparr>)"
    by simp
  from zoe lh lm have 6: "\<And>lcs uuid' now' nm'.
      loginMode (local_run lcs (local_example\<lparr>USERS := USERS local_example @
                  [\<lparr>u_id = ''u9'', name = ''Zoe'', employeeId = ''EMP9'', role = EMPLOYEE\<rparr>],
                app_user := Some \<lparr>u_id = ''u9'', name = ''Zoe'', employeeId = ''EMP9'',
                                  role = EMPLOYEE\<rparr>,
                CURRENT_USER := Some \<lparr>u_id = ''u9'', name = ''Zoe'', employeeId = ''EMP9'',
                                      role = EMPLOYEE\<rparr>\<rparr>)) \<noteq> ''ADMIN'' \<Longrightarrow>
      fst (handleLogin uuid' now' ''EMP9'' nm'
        (local_run lcs (local_example\<lparr>USERS := USERS local_example @
                  [\<lparr>u_id = ''u9'', name = ''Zoe'', employeeId = ''EMP9'', role = EMPLOYEE\<rparr>],
                app_user := Some \<lparr>u_id = ''u9'', name = ''Zoe'', employeeId = ''EMP9'',
                                  role = EMPLOYEE\<rparr>,
                CURRENT_USER := Some \<lparr>u_id = ''u9'', name = ''Zoe'', employeeId = ''EMP9'',
                                      role = EMPLOYEE\<rparr>\<rparr>)))
      = Some (Inr \<lparr>u_id = ''u9'', name = ''Zoe'', employeeId = ''EMP9'', role = EMPLOYEE\<rparr>)"
    by simp
  have 7: "''EMP9'' \<notin> employeeId ` set (users store_example)"
    using h by auto
  have 8: "''EMP9'' \<notin> employeeId ` set (USERS local_example)"
    using lh by auto
  show ?thesis
    using 1 2 4 5 7 8
      3 [where rl' = None and uuid' = "''u10''" and now' = 70 and nm' = "Some ''Zed''"
           and cs = "[PostVote ''v2'' 60 (Some ''s1'') (Some ''u9'') (Some ''Zoe'') (Some ''TEA'')]"]
      6 [OF lm', where uuid' = "''u10''" and now' = 70 and nm' = "''Zed''"]
    by simp
qed

end
